theory Spec2Isabelle
  imports Main "HOL-Library.Word"
begin

section \<open>Values, exceptions and external objects\<close>

text \<open>
  The module \<^verbatim>\<open>xknx/io/udp_client.py\<close> is embedded method by method. Python values that
  reach the constructor unchecked are kept as \<open>pyval\<close>; a raised exception is the \<open>Inl\<close>
  branch of a sum; everything the module does to the outside (log records, handler calls,
  writes to the asyncio transport) is appended to the event list of a \<open>world\<close>.
\<close>

type_synonym bytes = "8 word list"

datatype pyval =
    PyNone
  | PyBool bool
  | PyInt int
  | PyStr string
  | PyBytes bytes
  | PyList "pyval list"
  | PyTuple "pyval list"

datatype exn =
    TypeError
  | IndexError
  | ValueError
  | OSError
  | AttributeError string
  | XKNXException string
  | CouldNotParseKNXIP string
  | OtherError string

text \<open>\<^verbatim>\<open>isinstance(v, tuple)\<close>.\<close>

fun isinstance_tuple :: "pyval \<Rightarrow> bool" where
  "isinstance_tuple (PyTuple xs) = True"
| "isinstance_tuple v = False"

text \<open>\<^verbatim>\<open>v[i]\<close> for a non-negative literal index \<open>i\<close>.\<close>

fun py_getitem :: "pyval \<Rightarrow> nat \<Rightarrow> exn + pyval" where
  "py_getitem (PyTuple xs) i = (if i < length xs then Inr (xs ! i) else Inl IndexError)"
| "py_getitem (PyList xs) i = (if i < length xs then Inr (xs ! i) else Inl IndexError)"
| "py_getitem (PyStr s) i = (if i < length s then Inr (PyStr [s ! i]) else Inl IndexError)"
| "py_getitem (PyBytes b) i =
     (if i < length b then Inr (PyInt (int (unat (b ! i)))) else Inl IndexError)"
| "py_getitem v i = Inl TypeError"

definition bind_exn :: "exn + 'a \<Rightarrow> ('a \<Rightarrow> exn + 'b) \<Rightarrow> exn + 'b" where
  "bind_exn m f = (case m of Inl e \<Rightarrow> Inl e | Inr x \<Rightarrow> f x)"

subsection \<open>Frames\<close>

text \<open>
  A \<^verbatim>\<open>KNXIPFrame\<close> is produced and consumed by the codec, which is not part of this module.
  The client reads only \<^verbatim>\<open>knxipframe.header.service_type_ident\<close>.
\<close>

record knxip_header =
  service_type_ident :: nat

record knxipframe =
  header :: knxip_header
  body :: bytes

subsection \<open>Sockets\<close>

datatype sock_family = AF_INET
datatype sock_kind = SOCK_DGRAM
datatype sock_level = SOL_SOCKET | IPPROTO_IP
datatype sock_optname =
    SO_REUSEADDR
  | SO_REUSEPORT
  | IP_MULTICAST_IF
  | IP_ADD_MEMBERSHIP
  | IP_MULTICAST_TTL
  | IP_MULTICAST_LOOP
datatype sock_optval = OptInt int | OptBytes bytes

datatype sock_call =
    Socket sock_family sock_kind
  | Setsockopt sock_level sock_optname sock_optval
  | Setblocking bool
  | Bind pyval pyval

text \<open>
  The state of a socket object: the option values the calls below set, and the calls made
  on it so far, oldest first. \<open>closed_sock\<close> holds the values a fresh datagram socket has.
\<close>

record sock =
  family :: "sock_family option"
  kind :: "sock_kind option"
  so_reuseaddr :: bool
  so_reuseport :: bool
  blocking :: bool
  ip_multicast_if :: "bytes option"
  ip_memberships :: "bytes list"
  ip_multicast_ttl :: int
  ip_multicast_loop :: bool
  bound :: "(pyval \<times> pyval) option"
  calls :: "sock_call list"

definition closed_sock :: sock where
  "closed_sock =
     \<lparr>family = None, kind = None, so_reuseaddr = False, so_reuseport = False,
      blocking = True, ip_multicast_if = None, ip_memberships = [],
      ip_multicast_ttl = 1, ip_multicast_loop = True, bound = None, calls = []\<rparr>"

fun sock_effect :: "sock_call \<Rightarrow> sock \<Rightarrow> sock" where
  "sock_effect (Socket f k) s = s\<lparr>family := Some f, kind := Some k\<rparr>"
| "sock_effect (Setsockopt SOL_SOCKET SO_REUSEADDR (OptInt n)) s = s\<lparr>so_reuseaddr := (n \<noteq> 0)\<rparr>"
| "sock_effect (Setsockopt SOL_SOCKET SO_REUSEPORT (OptInt n)) s = s\<lparr>so_reuseport := (n \<noteq> 0)\<rparr>"
| "sock_effect (Setsockopt IPPROTO_IP IP_MULTICAST_IF (OptBytes b)) s =
     s\<lparr>ip_multicast_if := Some b\<rparr>"
| "sock_effect (Setsockopt IPPROTO_IP IP_ADD_MEMBERSHIP (OptBytes b)) s =
     s\<lparr>ip_memberships := ip_memberships s @ [b]\<rparr>"
| "sock_effect (Setsockopt IPPROTO_IP IP_MULTICAST_TTL (OptInt n)) s = s\<lparr>ip_multicast_ttl := n\<rparr>"
| "sock_effect (Setsockopt IPPROTO_IP IP_MULTICAST_LOOP (OptInt n)) s =
     s\<lparr>ip_multicast_loop := (n \<noteq> 0)\<rparr>"
| "sock_effect (Setsockopt l opt v) s = s"
| "sock_effect (Setblocking b) s = s\<lparr>blocking := b\<rparr>"
| "sock_effect (Bind host port) s = s\<lparr>bound := Some (host, port)\<rparr>"

text \<open>
  One call on a socket. Whether the operating system accepts it is not decided by this
  module: \<open>os s call\<close> says so. A refused call raises \<^verbatim>\<open>OSError\<close>; an accepted one takes
  effect and is recorded.
\<close>

definition sock_do :: "(sock \<Rightarrow> sock_call \<Rightarrow> bool) \<Rightarrow> sock_call \<Rightarrow> sock \<Rightarrow> exn + sock" where
  "sock_do os call s =
     (if os s call then Inr ((sock_effect call s)\<lparr>calls := calls s @ [call]\<rparr>) else Inl OSError)"

text \<open>
  \<^verbatim>\<open>socket.inet_aton(v)\<close>: \<^verbatim>\<open>TypeError\<close> unless \<open>v\<close> is a string, \<^verbatim>\<open>OSError\<close> when the C
  library (the parameter \<open>aton\<close>) rejects the string.
\<close>

fun inet_aton :: "(string \<Rightarrow> bytes option) \<Rightarrow> pyval \<Rightarrow> exn + bytes" where
  "inet_aton aton (PyStr s) = (case aton s of None \<Rightarrow> Inl OSError | Some b \<Rightarrow> Inr b)"
| "inet_aton aton v = Inl TypeError"

subsection \<open>Transports\<close>

text \<open>
  What \<^verbatim>\<open>loop.create_datagram_endpoint\<close> was asked to open: an endpoint over a prepared
  socket (\<^verbatim>\<open>sock=sock\<close>), or one bound to a local address with a fixed peer
  (\<^verbatim>\<open>local_addr=..., remote_addr=...\<close>). The transport it returns is the live channel over
  that endpoint; the event loop (the parameter \<open>loop\<close>) may refuse with an exception.
\<close>

datatype endpoint = SockEndpoint sock | AddrEndpoint pyval pyval

datatype transport = Transport endpoint

definition create_datagram_endpoint :: "(endpoint \<Rightarrow> exn option) \<Rightarrow> endpoint \<Rightarrow> exn + transport" where
  "create_datagram_endpoint loop ep = (case loop ep of Some e \<Rightarrow> Inl e | None \<Rightarrow> Inr (Transport ep))"

subsection \<open>The world outside the client\<close>

datatype event =
    KnxDebugSending knxipframe
  | KnxDebugReceived knxipframe
  | LogDebugUnhandled nat
  | LogException exn
  | HandlerCall nat nat knxipframe
  | TransportSendto transport bytes "pyval option"
  | TransportClose transport

text \<open>
  \<open>events\<close>: what has happened so far, oldest first. \<open>HandlerCall i h f\<close> is the call
  \<^verbatim>\<open>callback.callback(knxipframe, self)\<close> made through the \<^verbatim>\<open>Callback\<close> object of identity \<open>i\<close>,
  whose handler is \<open>h\<close>. \<open>next_id\<close>: the identity the next allocated object gets.
\<close>

record world =
  events :: "event list"
  next_id :: nat

definition emit :: "event \<Rightarrow> world \<Rightarrow> world" where
  "emit e w = w\<lparr>events := events w @ [e]\<rparr>"

section \<open>The classes\<close>

text \<open>
  \<^verbatim>\<open>UDPClient.Callback\<close>. The class defines no \<^verbatim>\<open>__eq__\<close>, so two of its objects are equal
  exactly when they are the same object: \<open>ident\<close> is that identity. \<open>callback\<close> names the
  handler function; filters are lists of service type identifiers.
\<close>

record Callback =
  ident :: nat
  callback :: nat
  service_types :: "nat list"

record UDPClient =
  xknx :: nat
  local_addr :: pyval
  remote_addr :: pyval
  multicast :: bool
  transport :: "transport option"
  callbacks :: "Callback list"

text \<open>\<^verbatim>\<open>Callback.__init__\<close>: \<^verbatim>\<open>self.service_types = service_types or []\<close>.\<close>

definition Callback_init :: "nat \<Rightarrow> nat \<Rightarrow> nat list option \<Rightarrow> Callback" where
  "Callback_init i cb sts =
     \<lparr>ident = i, callback = cb,
      service_types = (case sts of None \<Rightarrow> [] | Some xs \<Rightarrow> if xs = [] then [] else xs)\<rparr>"

text \<open>\<^verbatim>\<open>Callback.has_service\<close>.\<close>

definition has_service :: "Callback \<Rightarrow> nat \<Rightarrow> bool" where
  "has_service cb service_type =
     (length (service_types cb) = 0 \<or> service_type \<in> set (service_types cb))"

text \<open>\<^verbatim>\<open>UDPClient.__init__\<close>.\<close>

definition UDPClient_init :: "nat \<Rightarrow> pyval \<Rightarrow> pyval \<Rightarrow> bool \<Rightarrow> exn + UDPClient" where
  "UDPClient_init x la ra mc =
     (if \<not> isinstance_tuple la then Inl TypeError
      else if \<not> isinstance_tuple ra then Inl TypeError
      else Inr \<lparr>xknx = x, local_addr = la, remote_addr = ra, multicast = mc,
                transport = None, callbacks = []\<rparr>)"

text \<open>
  \<^verbatim>\<open>UDPClient.register_callback\<close>. The new \<^verbatim>\<open>Callback\<close> object takes the next free identity.
\<close>

definition register_callback ::
  "UDPClient \<Rightarrow> nat \<Rightarrow> nat list option \<Rightarrow> world \<Rightarrow> Callback \<times> UDPClient \<times> world" where
  "register_callback c cb sts w =
     (let sts1 = (case sts of None \<Rightarrow> [] | Some xs \<Rightarrow> xs);
          callb = Callback_init (next_id w) cb (Some sts1)
      in (callb, c\<lparr>callbacks := callbacks c @ [callb]\<rparr>, w\<lparr>next_id := Suc (next_id w)\<rparr>))"

text \<open>
  \<^verbatim>\<open>list.remove(x)\<close>: deletes the first element equal to \<open>x\<close> (here: the same object), and
  raises \<^verbatim>\<open>ValueError\<close>, the list untouched, when there is none.
\<close>

fun list_remove :: "Callback list \<Rightarrow> Callback \<Rightarrow> exn + Callback list" where
  "list_remove [] x = Inl ValueError"
| "list_remove (y # ys) x =
     (if ident y = ident x then Inr ys
      else (case list_remove ys x of Inl e \<Rightarrow> Inl e | Inr zs \<Rightarrow> Inr (y # zs)))"

text \<open>\<^verbatim>\<open>UDPClient.unregister_callback\<close>.\<close>

definition unregister_callback :: "UDPClient \<Rightarrow> Callback \<Rightarrow> (exn + unit) \<times> UDPClient" where
  "unregister_callback c callb =
     (case list_remove (callbacks c) callb of
        Inl e \<Rightarrow> (Inl e, c)
      | Inr cbs \<Rightarrow> (Inr (), c\<lparr>callbacks := cbs\<rparr>))"

text \<open>
  Handlers are code of the caller. Each is called as \<^verbatim>\<open>callback.callback(knxipframe, self)\<close>,
  so it holds the client and may call \<^verbatim>\<open>register_callback\<close> and \<^verbatim>\<open>unregister_callback\<close> on it
  before it returns or raises. A \<open>handler_run\<close> is one such call, written as the sequence
  of these calls it makes, each continued with the value the call gave back (the new
  handle, or the outcome of the removal). Whatever else a handler does stays outside the
  client's attributes and is not recorded.
\<close>

datatype handler_run =
    Returns
  | Raises exn
  | Registers nat "nat list option" "Callback \<Rightarrow> handler_run"
  | Unregisters Callback "exn + unit \<Rightarrow> handler_run"

primrec run_handler :: "handler_run \<Rightarrow> UDPClient \<Rightarrow> world \<Rightarrow> exn option \<times> UDPClient \<times> world" where
  "run_handler Returns c w = (None, c, w)"
| "run_handler (Raises e) c w = (Some e, c, w)"
| "run_handler (Registers cb sts k) c w =
     (case register_callback c cb sts w of (callb, c1, w1) \<Rightarrow> run_handler (k callb) c1 w1)"
| "run_handler (Unregisters callb k) c w =
     (case unregister_callback c callb of (r, c1) \<Rightarrow> run_handler (k r) c1 w)"

text \<open>
  \<^verbatim>\<open>UDPClient.handle_knxipframe\<close>. \<open>hb h f c\<close> is what handler \<open>h\<close> does when called with frame
  \<open>f\<close> on the client \<open>c\<close>. \<open>dispatch_loop\<close> is the \<^verbatim>\<open>for\<close> loop over \<^verbatim>\<open>self.callbacks\<close>: the list
  iterator keeps an index \<open>i\<close> into the list object and reads its length and element anew at
  every step, so what a handler appended or removed is seen by the running loop. The loop
  carries the local \<^verbatim>\<open>handled\<close>; an exception of a handler leaves it at once. A handler
  that keeps registering can keep the loop running for ever: the first argument bounds the
  number of steps, and the result \<open>None\<close> says that the loop was still running when the
  bound was used up (client and world are then as the steps taken left them).
\<close>

fun dispatch_loop ::
  "nat \<Rightarrow> (nat \<Rightarrow> knxipframe \<Rightarrow> UDPClient \<Rightarrow> handler_run) \<Rightarrow> knxipframe \<Rightarrow> nat \<Rightarrow> bool
     \<Rightarrow> UDPClient \<Rightarrow> world \<Rightarrow> (exn + bool) option \<times> UDPClient \<times> world" where
  "dispatch_loop 0 hb f i handled c w = (None, c, w)"
| "dispatch_loop (Suc n) hb f i handled c w =
     (if i < length (callbacks c) then
        (if has_service (callbacks c ! i) (service_type_ident (header f)) then
           (case run_handler (hb (callback (callbacks c ! i)) f c) c
                   (emit (HandlerCall (ident (callbacks c ! i)) (callback (callbacks c ! i)) f) w) of
              (Some e, c1, w1) \<Rightarrow> (Some (Inl e), c1, w1)
            | (None, c1, w1) \<Rightarrow> dispatch_loop n hb f (Suc i) True c1 w1)
         else dispatch_loop n hb f (Suc i) handled c w)
      else (Some (Inr handled), c, w))"

definition handle_knxipframe ::
  "nat \<Rightarrow> (nat \<Rightarrow> knxipframe \<Rightarrow> UDPClient \<Rightarrow> handler_run) \<Rightarrow> UDPClient \<Rightarrow> knxipframe \<Rightarrow> world
     \<Rightarrow> (exn + unit) option \<times> UDPClient \<times> world" where
  "handle_knxipframe fuel hb c f w =
     (case dispatch_loop fuel hb f 0 False c w of
        (None, c1, w1) \<Rightarrow> (None, c1, w1)
      | (Some (Inl e), c1, w1) \<Rightarrow> (Some (Inl e), c1, w1)
      | (Some (Inr handled), c1, w1) \<Rightarrow>
          if \<not> handled
          then (Some (Inr ()), c1, emit (LogDebugUnhandled (service_type_ident (header f))) w1)
          else (Some (Inr ()), c1, w1))"

text \<open>
  \<^verbatim>\<open>UDPClient.data_received_callback\<close>. \<open>from_knx\<close> is the codec's decoder
  (\<^verbatim>\<open>KNXIPFrame(self.xknx).from_knx(raw)\<close>). The \<^verbatim>\<open>try\<close> block covers the decoder, the debug
  record and the dispatch; only \<^verbatim>\<open>CouldNotParseKNXIP\<close> is caught.
\<close>

definition data_received_callback ::
  "nat \<Rightarrow> (nat \<Rightarrow> bytes \<Rightarrow> exn + knxipframe) \<Rightarrow> (nat \<Rightarrow> knxipframe \<Rightarrow> UDPClient \<Rightarrow> handler_run)
     \<Rightarrow> UDPClient \<Rightarrow> bytes \<Rightarrow> world \<Rightarrow> (exn + unit) option \<times> UDPClient \<times> world" where
  "data_received_callback fuel from_knx hb c raw w =
     (if raw \<noteq> [] then
        (case (case from_knx (xknx c) raw of
                 Inl e \<Rightarrow> (Some (Inl e), c, w)
               | Inr f \<Rightarrow> handle_knxipframe fuel hb c f (emit (KnxDebugReceived f) w)) of
           (Some (Inl (CouldNotParseKNXIP m)), c1, w1) \<Rightarrow>
             (Some (Inr ()), c1, emit (LogException (CouldNotParseKNXIP m)) w1)
         | (r, c1, w1) \<Rightarrow> (r, c1, w1))
      else (Some (Inr ()), c, w))"

text \<open>
  \<^verbatim>\<open>UDPClient.create_multicast_sock\<close>. \<open>platform\<close> is \<^verbatim>\<open>sys.platform\<close>. Arguments of a call
  are evaluated before the call, left to right.
\<close>

definition create_multicast_sock ::
  "string \<Rightarrow> (sock \<Rightarrow> sock_call \<Rightarrow> bool) \<Rightarrow> (string \<Rightarrow> bytes option) \<Rightarrow> pyval \<Rightarrow> pyval
     \<Rightarrow> exn + sock" where
  "create_multicast_sock platform os aton own_ip group_addr =
     bind_exn (sock_do os (Socket AF_INET SOCK_DGRAM) closed_sock) (\<lambda>s0.
     bind_exn (sock_do os (Setsockopt SOL_SOCKET SO_REUSEADDR (OptInt 1)) s0) (\<lambda>s1.
     bind_exn (sock_do os (Setblocking False) s1) (\<lambda>s2.
     bind_exn (inet_aton aton own_ip) (\<lambda>ifc.
     bind_exn (sock_do os (Setsockopt IPPROTO_IP IP_MULTICAST_IF (OptBytes ifc)) s2) (\<lambda>s3.
     bind_exn (py_getitem group_addr 0) (\<lambda>group.
     bind_exn (inet_aton aton group) (\<lambda>grp.
     bind_exn (inet_aton aton own_ip) (\<lambda>ifc'.
     bind_exn (sock_do os (Setsockopt IPPROTO_IP IP_ADD_MEMBERSHIP (OptBytes (grp @ ifc'))) s3) (\<lambda>s4.
     bind_exn (sock_do os (Setsockopt IPPROTO_IP IP_MULTICAST_TTL (OptInt 2)) s4) (\<lambda>s5.
     bind_exn
       (if platform = ''win32'' then
          bind_exn (py_getitem group_addr 1) (\<lambda>port.
          sock_do os (Bind (PyStr '''') port) s5)
        else if platform = ''darwin'' then
          bind_exn (sock_do os (Setsockopt SOL_SOCKET SO_REUSEPORT (OptInt 1)) s5) (\<lambda>s6.
          bind_exn (py_getitem group_addr 1) (\<lambda>port.
          sock_do os (Bind (PyStr '''') port) s6))
        else
          bind_exn (py_getitem group_addr 0) (\<lambda>host.
          bind_exn (py_getitem group_addr 1) (\<lambda>port.
          sock_do os (Bind host port) s5))) (\<lambda>s7.
     sock_do os (Setsockopt IPPROTO_IP IP_MULTICAST_LOOP (OptInt 0)) s7)))))))))))"

text \<open>
  \<^verbatim>\<open>UDPClient.connect\<close>. The protocol object is built first, from \<^verbatim>\<open>self.local_addr[0]\<close>; it
  only hands received datagrams to \<open>data_received_callback\<close> and is not kept here.
  \<^verbatim>\<open>self.transport\<close> is assigned only when the endpoint was opened.
\<close>

definition connect ::
  "string \<Rightarrow> (sock \<Rightarrow> sock_call \<Rightarrow> bool) \<Rightarrow> (string \<Rightarrow> bytes option) \<Rightarrow> (endpoint \<Rightarrow> exn option)
     \<Rightarrow> UDPClient \<Rightarrow> (exn + unit) \<times> UDPClient" where
  "connect platform os aton loop c =
     (case py_getitem (local_addr c) 0 of
        Inl e \<Rightarrow> (Inl e, c)
      | Inr own_ip \<Rightarrow>
          if multicast c then
            (case bind_exn (py_getitem (local_addr c) 0) (\<lambda>ip.
                  bind_exn (create_multicast_sock platform os aton ip (remote_addr c)) (\<lambda>sock.
                  create_datagram_endpoint loop (SockEndpoint sock))) of
               Inl e \<Rightarrow> (Inl e, c)
             | Inr t \<Rightarrow> (Inr (), c\<lparr>transport := Some t\<rparr>))
          else
            (case create_datagram_endpoint loop (AddrEndpoint (local_addr c) (remote_addr c)) of
               Inl e \<Rightarrow> (Inl e, c)
             | Inr t \<Rightarrow> (Inr (), c\<lparr>transport := Some t\<rparr>)))"

text \<open>
  \<^verbatim>\<open>UDPClient.send\<close>. \<open>to_knx\<close> is the codec's encoder (\<^verbatim>\<open>bytes(knxipframe.to_knx())\<close>). The
  method assigns nothing to \<^verbatim>\<open>self\<close>, so only the world is returned. The call of the
  transport's \<^verbatim>\<open>sendto\<close> is recorded as an event and taken to return; what the event loop
  then does with the bytes, on a closed transport too, lies outside this module.
\<close>

definition send ::
  "(knxipframe \<Rightarrow> bytes) \<Rightarrow> UDPClient \<Rightarrow> knxipframe \<Rightarrow> world \<Rightarrow> (exn + unit) \<times> world" where
  "send to_knx c f w =
     (let w1 = emit (KnxDebugSending f) w in
      case transport c of
        None \<Rightarrow> (Inl (XKNXException ''Transport not connected''), w1)
      | Some t \<Rightarrow>
          if multicast c then (Inr (), emit (TransportSendto t (to_knx f) (Some (remote_addr c))) w1)
          else (Inr (), emit (TransportSendto t (to_knx f) None) w1))"

text \<open>
  \<^verbatim>\<open>UDPClient.getsockname\<close> and \<^verbatim>\<open>UDPClient.getremote\<close>. \<open>get_extra_info\<close> is the transport's
  own method. Reading an attribute of \<^verbatim>\<open>None\<close> raises \<^verbatim>\<open>AttributeError\<close>.
\<close>

definition getsockname :: "(transport \<Rightarrow> string \<Rightarrow> pyval) \<Rightarrow> UDPClient \<Rightarrow> exn + pyval" where
  "getsockname get_extra_info c =
     (case transport c of
        None \<Rightarrow> Inl (AttributeError ''get_extra_info'')
      | Some t \<Rightarrow> Inr (get_extra_info t ''sockname''))"

definition getremote :: "(transport \<Rightarrow> string \<Rightarrow> pyval) \<Rightarrow> UDPClient \<Rightarrow> exn + pyval" where
  "getremote get_extra_info c =
     (case transport c of
        None \<Rightarrow> Inl (AttributeError ''get_extra_info'')
      | Some t \<Rightarrow> Inr (get_extra_info t ''peername''))"

text \<open>
  \<^verbatim>\<open>UDPClient.stop\<close>: \<^verbatim>\<open>self.transport.close()\<close> and nothing else; \<^verbatim>\<open>self.transport\<close> keeps
  referring to the closed transport.
\<close>

definition stop :: "UDPClient \<Rightarrow> world \<Rightarrow> (exn + unit) \<times> world" where
  "stop c w =
     (case transport c of
        None \<Rightarrow> (Inl (AttributeError ''close''), w)
      | Some t \<Rightarrow> (Inr (), emit (TransportClose t) w))"

section \<open>Notions used to state the properties\<close>

text \<open>The events a call appended: those of the world it returned beyond the ones it started with.\<close>

definition new_events :: "world \<Rightarrow> world \<Rightarrow> event list" where
  "new_events w w1 = drop (length (events w)) (events w1)"

text \<open>
  The registrations a frame is meant for, in list order: those whose type filter is empty
  or contains the frame's service type.
\<close>

definition matching :: "knxipframe \<Rightarrow> Callback list \<Rightarrow> Callback list" where
  "matching f cbs =
     filter (\<lambda>cb. service_types cb = [] \<or> service_type_ident (header f) \<in> set (service_types cb)) cbs"

definition call_of :: "knxipframe \<Rightarrow> Callback \<Rightarrow> event" where
  "call_of f cb = HandlerCall (ident cb) (callback cb) f"

fun is_handler_call :: "event \<Rightarrow> bool" where
  "is_handler_call (HandlerCall i h f) = True"
| "is_handler_call e = False"

definition handler_calls :: "event list \<Rightarrow> event list" where
  "handler_calls evs = filter is_handler_call evs"

text \<open>
  The registry as the public methods keep it: every \<^verbatim>\<open>Callback\<close> in the list is a distinct
  object, allocated before now.
\<close>

definition registry_inv :: "UDPClient \<Rightarrow> world \<Rightarrow> bool" where
  "registry_inv c w =
     (distinct (map ident (callbacks c)) \<and> list_all (\<lambda>cb. ident cb < next_id w) (callbacks c))"

text \<open>An identity that was given out and is not in the registration list.\<close>

definition absent :: "nat \<Rightarrow> UDPClient \<Rightarrow> world \<Rightarrow> bool" where
  "absent i c w = (i \<notin> ident ` set (callbacks c) \<and> i < next_id w)"

text \<open>
  A caller's later use of the registry and the receive path: a sequence of calls, each
  started in the state the previous one left, whether that one returned, raised, or was
  cut off by the step bound.
\<close>

datatype api_call =
    Register nat "nat list option"
  | Unregister Callback
  | Receive bytes
  | Dispatch knxipframe

fun api_step ::
  "nat \<Rightarrow> (nat \<Rightarrow> bytes \<Rightarrow> exn + knxipframe) \<Rightarrow> (nat \<Rightarrow> knxipframe \<Rightarrow> UDPClient \<Rightarrow> handler_run)
     \<Rightarrow> UDPClient \<times> world \<Rightarrow> api_call \<Rightarrow> UDPClient \<times> world" where
  "api_step fuel from_knx hb (c, w) (Register cb sts) = snd (register_callback c cb sts w)"
| "api_step fuel from_knx hb (c, w) (Unregister callb) = (snd (unregister_callback c callb), w)"
| "api_step fuel from_knx hb (c, w) (Receive raw) = snd (data_received_callback fuel from_knx hb c raw w)"
| "api_step fuel from_knx hb (c, w) (Dispatch f) = snd (handle_knxipframe fuel hb c f w)"

definition api_run ::
  "nat \<Rightarrow> (nat \<Rightarrow> bytes \<Rightarrow> exn + knxipframe) \<Rightarrow> (nat \<Rightarrow> knxipframe \<Rightarrow> UDPClient \<Rightarrow> handler_run)
     \<Rightarrow> UDPClient \<times> world \<Rightarrow> api_call list \<Rightarrow> UDPClient \<times> world" where
  "api_run fuel from_knx hb s cs = foldl (api_step fuel from_knx hb) s cs"

text \<open>An address as the constructor's signature describes it: a 2-tuple of a string and an integer.\<close>

fun wellformed_addr :: "pyval \<Rightarrow> bool" where
  "wellformed_addr (PyTuple [PyStr host, PyInt port]) = True"
| "wellformed_addr v = False"

text \<open>The calls of the bind step, by platform.\<close>

definition bind_calls :: "string \<Rightarrow> pyval \<Rightarrow> pyval \<Rightarrow> sock_call list" where
  "bind_calls platform host port =
     (if platform = ''win32'' then [Bind (PyStr '''') port]
      else if platform = ''darwin'' then
        [Setsockopt SOL_SOCKET SO_REUSEPORT (OptInt 1), Bind (PyStr '''') port]
      else [Bind host port])"

text \<open>The socket the configuration steps lead to, for given interface and group bytes.\<close>

definition configured_sock :: "string \<Rightarrow> bytes \<Rightarrow> bytes \<Rightarrow> pyval \<Rightarrow> pyval \<Rightarrow> sock" where
  "configured_sock platform ifc grp host port =
     \<lparr>family = Some AF_INET, kind = Some SOCK_DGRAM, so_reuseaddr = True,
      so_reuseport = (platform \<noteq> ''win32'' \<and> platform = ''darwin''), blocking = False,
      ip_multicast_if = Some ifc, ip_memberships = [grp @ ifc], ip_multicast_ttl = 2,
      ip_multicast_loop = False,
      bound = Some (if platform = ''win32'' \<or> platform = ''darwin'' then (PyStr '''', port)
                    else (host, port)),
      calls =
        [Socket AF_INET SOCK_DGRAM,
         Setsockopt SOL_SOCKET SO_REUSEADDR (OptInt 1),
         Setblocking False,
         Setsockopt IPPROTO_IP IP_MULTICAST_IF (OptBytes ifc),
         Setsockopt IPPROTO_IP IP_ADD_MEMBERSHIP (OptBytes (grp @ ifc)),
         Setsockopt IPPROTO_IP IP_MULTICAST_TTL (OptInt 2)]
        @ bind_calls platform host port
        @ [Setsockopt IPPROTO_IP IP_MULTICAST_LOOP (OptInt 0)]\<rparr>"

subsection \<open>Concrete data for the examples\<close>

definition w0 :: world where
  "w0 = \<lparr>events = [], next_id = 0\<rparr>"

definition frame_0201 :: knxipframe where
  "frame_0201 = \<lparr>header = \<lparr>service_type_ident = 513\<rparr>, body = [6, 16, 2, 1, 0, 6]\<rparr>"


definition local_any :: pyval where
  "local_any = PyTuple [PyStr ''0.0.0.0'', PyInt 0]"

definition knx_group :: pyval where
  "knx_group = PyTuple [PyStr ''224.0.23.12'', PyInt 3671]"

definition gateway :: pyval where
  "gateway = PyTuple [PyStr ''192.168.1.3'', PyInt 3671]"

definition mcast_client :: UDPClient where
  "mcast_client =
     \<lparr>xknx = 0, local_addr = local_any, remote_addr = knx_group, multicast = True,
      transport = None, callbacks = []\<rparr>"

definition ucast_client :: UDPClient where
  "ucast_client =
     \<lparr>xknx = 0, local_addr = local_any, remote_addr = gateway, multicast = False,
      transport = None, callbacks = []\<rparr>"

definition cb_all :: Callback where
  "cb_all = \<lparr>ident = 0, callback = 10, service_types = []\<rparr>"

definition cb_0201 :: Callback where
  "cb_0201 = \<lparr>ident = 1, callback = 11, service_types = [513]\<rparr>"

definition cb_0203 :: Callback where
  "cb_0203 = \<lparr>ident = 2, callback = 12, service_types = [515]\<rparr>"

definition cb_absent :: Callback where
  "cb_absent = \<lparr>ident = 7, callback = 10, service_types = []\<rparr>"

definition reg_client :: UDPClient where
  "reg_client = mcast_client\<lparr>callbacks := [cb_all, cb_0201, cb_0203]\<rparr>"

definition w3 :: world where
  "w3 = \<lparr>events = [], next_id = 3\<rparr>"

text \<open>Handlers that return, an operating system and an event loop that accept every call.\<close>

definition quiet :: "nat \<Rightarrow> knxipframe \<Rightarrow> UDPClient \<Rightarrow> handler_run" where
  "quiet h f c = Returns"

definition os_accepts :: "sock \<Rightarrow> sock_call \<Rightarrow> bool" where
  "os_accepts s call = True"

definition loop_accepts :: "endpoint \<Rightarrow> exn option" where
  "loop_accepts ep = None"

definition aton4 :: "string \<Rightarrow> bytes option" where
  "aton4 s =
     (if s = ''0.0.0.0'' then Some [0, 0, 0, 0]
      else if s = ''224.0.23.12'' then Some [224, 0, 23, 12]
      else None)"

text \<open>A codec for the examples: the encoder writes the body; the decoder reads the service
  type from the third and fourth byte of a six byte header and rejects anything shorter.\<close>

definition to_body :: "knxipframe \<Rightarrow> bytes" where
  "to_body f = body f"

definition from_header :: "nat \<Rightarrow> bytes \<Rightarrow> exn + knxipframe" where
  "from_header x raw =
     (if length raw < 6 then Inl (CouldNotParseKNXIP ''wrong connection header length'')
      else Inr \<lparr>header = \<lparr>service_type_ident = 256 * unat (raw ! 2) + unat (raw ! 3)\<rparr>,
                body = raw\<rparr>)"

definition no_extra_info :: "transport \<Rightarrow> string \<Rightarrow> pyval" where
  "no_extra_info t name = PyNone"

definition ucast_transport :: transport where
  "ucast_transport = Transport (AddrEndpoint local_any gateway)"

definition connected_ucast :: UDPClient where
  "connected_ucast = ucast_client\<lparr>transport := Some ucast_transport\<rparr>"

definition loop_refuses :: "endpoint \<Rightarrow> exn option" where
  "loop_refuses ep = Some OSError"


definition leaving :: "nat \<Rightarrow> knxipframe \<Rightarrow> UDPClient \<Rightarrow> handler_run" where
  "leaving h f c = (if h = 10 then Unregisters cb_all (\<lambda>r. Returns) else Returns)"


section \<open>Dispatch\<close>

lemma new_events_append: "events w1 = events w @ xs \<Longrightarrow> new_events w w1 = xs"
  by (simp add: new_events_def)

lemma has_service_iff:
  "has_service cb st \<longleftrightarrow> service_types cb = [] \<or> st \<in> set (service_types cb)"
  by (simp add: has_service_def)

lemma matching_Cons_yes:
  "has_service cb (service_type_ident (header f)) \<Longrightarrow> matching f (cb # cbs) = cb # matching f cbs"
  by (simp add: matching_def has_service_iff)

lemma matching_Cons_no:
  "\<not> has_service cb (service_type_ident (header f)) \<Longrightarrow> matching f (cb # cbs) = matching f cbs"
  by (simp add: matching_def has_service_iff)

lemma matching_subset: "set (matching f cbs) \<subseteq> set cbs"
  by (auto simp: matching_def)




text \<open>A handler's run changes the registration list and the allocator, nothing else.\<close>

lemma run_handler_shape:
  "run_handler t c w = (r, c1, w1) \<Longrightarrow>
   events w1 = events w \<and> next_id w \<le> next_id w1 \<and> c1 = c\<lparr>callbacks := callbacks c1\<rparr>"
proof (induction t arbitrary: c w)
  case Returns
  then show ?case by simp
next
  case (Raises e)
  then show ?case by simp
next
  case (Registers cb sts k)
  let ?callb = "fst (register_callback c cb sts w)"
  let ?c = "fst (snd (register_callback c cb sts w))"
  let ?w = "snd (snd (register_callback c cb sts w))"
  from Registers.prems have "run_handler (k ?callb) ?c ?w = (r, c1, w1)"
    by (simp add: case_prod_beta)
  from Registers.IH[OF _ this] have
    "events w1 = events ?w" "next_id ?w \<le> next_id w1" "c1 = ?c\<lparr>callbacks := callbacks c1\<rparr>"
    by (simp_all add: range_eqI)
  then show ?case
    by (simp_all add: register_callback_def Let_def)
next
  case (Unregisters callb k)
  let ?r = "fst (unregister_callback c callb)"
  let ?c = "snd (unregister_callback c callb)"
  from Unregisters.prems have "run_handler (k ?r) ?c w = (r, c1, w1)"
    by (simp add: case_prod_beta)
  from Unregisters.IH[OF _ this] have
    "events w1 = events w" "next_id w \<le> next_id w1" "c1 = ?c\<lparr>callbacks := callbacks c1\<rparr>"
    by (simp_all add: range_eqI)
  moreover have "?c = c\<lparr>callbacks := callbacks ?c\<rparr>"
    by (simp add: unregister_callback_def split: sum.splits)
  ultimately show ?case
    by (metis UDPClient.update_convs(6) UDPClient.surjective UDPClient.select_convs)
qed


text \<open>
  What every pass does, whatever the handlers do: it adds handler calls for the frame and
  no other event, and changes the client only in its registration list.
\<close>

lemma dispatch_loop_shape:
  "dispatch_loop fuel hb f i handled c w = (r, c1, w1) \<Longrightarrow>
   (\<exists>evs. events w1 = events w @ evs \<and> list_all (\<lambda>e. \<exists>j h. e = HandlerCall j h f) evs) \<and>
   next_id w \<le> next_id w1 \<and> c1 = c\<lparr>callbacks := callbacks c1\<rparr>"
proof (induction fuel arbitrary: i handled c w)
  case 0
  then show ?case by simp
next
  case (Suc n)
  let ?cb = "callbacks c ! i"
  let ?st = "service_type_ident (header f)"
  let ?w = "emit (HandlerCall (ident ?cb) (callback ?cb) f) w"
  show ?case
  proof (cases "i < length (callbacks c)")
    case False
    with Suc.prems show ?thesis by simp
  next
    case True
    show ?thesis
    proof (cases "has_service ?cb ?st")
      case False
      with True Suc.prems have "dispatch_loop n hb f (Suc i) handled c w = (r, c1, w1)" by simp
      from Suc.IH[OF this] show ?thesis .
    next
      case m: True
      obtain r0 c0 v where h: "run_handler (hb (callback ?cb) f c) c ?w = (r0, c0, v)"
        by (cases "run_handler (hb (callback ?cb) f c) c ?w") auto
      from run_handler_shape[OF h] have
        hs: "events v = events w @ [HandlerCall (ident ?cb) (callback ?cb) f]"
          "next_id w \<le> next_id v" "c0 = c\<lparr>callbacks := callbacks c0\<rparr>"
        by (simp_all add: emit_def)
      show ?thesis
      proof (cases r0)
        case (Some e)
        with True m h Suc.prems have "c1 = c0" "w1 = v" by simp_all
        with hs show ?thesis by simp
      next
        case None
        with True m h Suc.prems have d: "dispatch_loop n hb f (Suc i) True c0 v = (r, c1, w1)"
          by simp
        from Suc.IH[OF d] obtain evs where
          e: "events w1 = events v @ evs" "list_all (\<lambda>e. \<exists>j h. e = HandlerCall j h f) evs"
          and n: "next_id v \<le> next_id w1" and k: "c1 = c0\<lparr>callbacks := callbacks c1\<rparr>"
          by blast
        have "events w1 = events w @ (HandlerCall (ident ?cb) (callback ?cb) f # evs)"
          using e(1) hs(1) by simp
        moreover have "list_all (\<lambda>e. \<exists>j h. e = HandlerCall j h f)
                         (HandlerCall (ident ?cb) (callback ?cb) f # evs)"
          using e(2) by simp
        moreover have "c1 = c\<lparr>callbacks := callbacks c1\<rparr>"
          using k hs(3) by (metis UDPClient.update_convs(6) UDPClient.surjective)
        ultimately show ?thesis using n hs(2) by (meson le_trans)
      qed
    qed
  qed
qed

text \<open>
  Handlers that return without registering or unregistering anything: the pass calls all
  matching handlers from the index on, in list order, and ends.
\<close>

lemma dispatch_loop_normal:
  assumes "\<forall>cb\<in>set (matching f (callbacks c)). hb (callback cb) f c = Returns"
    and "length (callbacks c) - i < fuel"
  shows "dispatch_loop fuel hb f i handled c w =
     (Some (Inr (handled \<or> matching f (drop i (callbacks c)) \<noteq> [])), c,
      w\<lparr>events := events w @ map (call_of f) (matching f (drop i (callbacks c)))\<rparr>)"
  using assms(2)
proof (induction fuel arbitrary: i handled w)
  case 0
  then show ?case by simp
next
  case (Suc n)
  let ?cb = "callbacks c ! i"
  show ?case
  proof (cases "i < length (callbacks c)")
    case False
    then show ?thesis by (simp add: matching_def)
  next
    case True
    then have d: "drop i (callbacks c) = ?cb # drop (Suc i) (callbacks c)"
      by (simp add: Cons_nth_drop_Suc)
    from True Suc.prems have l: "length (callbacks c) - Suc i < n" by simp
    show ?thesis
    proof (cases "has_service ?cb (service_type_ident (header f))")
      case False
      with True Suc.IH[OF l, of handled w] show ?thesis
        by (simp add: d matching_Cons_no)
    next
      case m: True
      from True m have "?cb \<in> set (matching f (callbacks c))"
        by (simp add: matching_def has_service_iff)
      with assms(1) have q: "hb (callback ?cb) f c = Returns" by blast
      from True m q Suc.IH[OF l, of True "emit (call_of f ?cb) w"] show ?thesis
        by (simp add: d matching_Cons_yes call_of_def emit_def)
    qed
  qed
qed






lemma handle_knxipframe_normal:
  assumes "\<forall>cb\<in>set (matching f (callbacks c)). hb (callback cb) f c = Returns"
    and "length (callbacks c) < fuel"
  shows "handle_knxipframe fuel hb c f w =
           (Some (Inr ()), c,
            w\<lparr>events := events w @ map (call_of f) (matching f (callbacks c)) @
                 (if matching f (callbacks c) = []
                  then [LogDebugUnhandled (service_type_ident (header f))] else [])\<rparr>)"
proof -
  from assms(2) have "length (callbacks c) - 0 < fuel" by simp
  from dispatch_loop_normal[where hb = hb and f = f and c = c, OF assms(1) this, of False w]
  show ?thesis
    by (simp add: handle_knxipframe_def emit_def)
qed

lemma handle_knxipframe_shape:
  assumes "handle_knxipframe fuel hb c f w = (r, c1, w1)"
  shows "(\<exists>evs. events w1 = events w @ evs \<and>
            list_all (\<lambda>e. (\<exists>j h. e = HandlerCall j h f) \<or>
                          e = LogDebugUnhandled (service_type_ident (header f))) evs \<and>
            (LogDebugUnhandled (service_type_ident (header f)) \<in> set evs
               \<longleftrightarrow> fst (dispatch_loop fuel hb f 0 False c w) = Some (Inr False))) \<and>
         next_id w1 = next_id (snd (snd (dispatch_loop fuel hb f 0 False c w))) \<and>
         c1 = fst (snd (dispatch_loop fuel hb f 0 False c w))"
proof -
  obtain r0 c0 v where d: "dispatch_loop fuel hb f 0 False c w = (r0, c0, v)"
    by (cases "dispatch_loop fuel hb f 0 False c w") auto
  from dispatch_loop_shape[OF d] obtain evs where
    e: "events v = events w @ evs" "list_all (\<lambda>e. \<exists>j h. e = HandlerCall j h f) evs"
    by blast
  from e(2) have nl: "LogDebugUnhandled (service_type_ident (header f)) \<notin> set evs"
    by (auto simp: list_all_iff)
  from e(2) have ev: "list_all (\<lambda>e. (\<exists>j h. e = HandlerCall j h f) \<or>
                          e = LogDebugUnhandled (service_type_ident (header f))) evs"
    by (auto simp: list_all_iff)
  consider (unhandled) "r0 = Some (Inr False)"
      "w1 = emit (LogDebugUnhandled (service_type_ident (header f))) v" "c1 = c0"
    | (other) "r0 \<noteq> Some (Inr False)" "w1 = v" "c1 = c0"
    using assms d by (auto simp: handle_knxipframe_def split: option.splits sum.splits if_splits)
  then show ?thesis
  proof cases
    case unhandled
    have "events w1 = events w @ (evs @ [LogDebugUnhandled (service_type_ident (header f))])"
      using unhandled(2) e(1) by (simp add: emit_def)
    moreover have "list_all (\<lambda>e. (\<exists>j h. e = HandlerCall j h f) \<or>
                          e = LogDebugUnhandled (service_type_ident (header f)))
                     (evs @ [LogDebugUnhandled (service_type_ident (header f))])"
      using ev by simp
    ultimately show ?thesis
      using unhandled d by (auto simp: emit_def)
  next
    case other
    with e ev nl d show ?thesis by auto
  qed
qed










section \<open>The receive path\<close>

lemma drc_empty: "data_received_callback fuel from_knx hb c [] w = (Some (Inr ()), c, w)"
  by (simp add: data_received_callback_def)

lemma drc_parse_error:
  "raw \<noteq> [] \<Longrightarrow> from_knx (xknx c) raw = Inl (CouldNotParseKNXIP m) \<Longrightarrow>
   data_received_callback fuel from_knx hb c raw w
     = (Some (Inr ()), c, emit (LogException (CouldNotParseKNXIP m)) w)"
  by (simp add: data_received_callback_def)

lemma drc_other_error:
  "raw \<noteq> [] \<Longrightarrow> from_knx (xknx c) raw = Inl e \<Longrightarrow>
   (\<exists>m. e = CouldNotParseKNXIP m \<and> data_received_callback fuel from_knx hb c raw w
     = (Some (Inr ()), c, emit (LogException (CouldNotParseKNXIP m)) w)) \<or>
   data_received_callback fuel from_knx hb c raw w = (Some (Inl e), c, w)"
  by (cases e) (simp_all add: data_received_callback_def)

lemma drc_decoded:
  assumes "raw \<noteq> []" and "from_knx (xknx c) raw = Inr f"
    and "handle_knxipframe fuel hb c f (emit (KnxDebugReceived f) w) = (r0, c0, v)"
  shows "(\<exists>m. r0 = Some (Inl (CouldNotParseKNXIP m)) \<and>
         data_received_callback fuel from_knx hb c raw w
           = (Some (Inr ()), c0, emit (LogException (CouldNotParseKNXIP m)) v)) \<or>
   ((\<forall>m. r0 \<noteq> Some (Inl (CouldNotParseKNXIP m))) \<and>
    data_received_callback fuel from_knx hb c raw w = (r0, c0, v))"
proof (cases r0)
  case None
  with assms show ?thesis by (simp add: data_received_callback_def)
next
  case (Some x)
  show ?thesis
  proof (cases x)
    case (Inr u)
    with Some assms show ?thesis by (simp add: data_received_callback_def)
  next
    case (Inl e)
    with Some assms show ?thesis
      by (cases e) (simp_all add: data_received_callback_def)
  qed
qed

lemma data_received_callback_shape:
  assumes "data_received_callback fuel from_knx hb c raw w = (r, c1, w1)"
  shows "\<exists>evs. events w1 = events w @ evs \<and>
            (\<forall>i h g. HandlerCall i h g \<in> set evs \<longrightarrow>
               raw \<noteq> [] \<and> from_knx (xknx c) raw = Inr g)"
proof (cases "raw = []")
  case True
  with assms show ?thesis by (simp add: drc_empty)
next
  case False
  show ?thesis
  proof (cases "from_knx (xknx c) raw")
    case (Inl e)
    from drc_other_error[where from_knx = from_knx and c = c, OF False Inl, of fuel hb w] assms
    have "w1 = w \<or> (\<exists>m. w1 = emit (LogException (CouldNotParseKNXIP m)) w)" by auto
    then show ?thesis by (auto simp: emit_def)
  next
    case (Inr f)
    obtain r0 c0 v where h: "handle_knxipframe fuel hb c f (emit (KnxDebugReceived f) w) = (r0, c0, v)"
      by (cases "handle_knxipframe fuel hb c f (emit (KnxDebugReceived f) w)") auto
    from handle_knxipframe_shape[OF h] obtain xs where
      b: "events v = events w @ KnxDebugReceived f # xs"
      and x: "list_all (\<lambda>e. (\<exists>j h. e = HandlerCall j h f) \<or>
                          e = LogDebugUnhandled (service_type_ident (header f))) xs"
      by (auto simp: emit_def)
    from drc_decoded[where from_knx = from_knx and hb = hb and c = c, OF False Inr h] assms
    have "w1 = v \<or> (\<exists>m. w1 = emit (LogException (CouldNotParseKNXIP m)) v)" by auto
    then obtain tl where tl: "events w1 = events v @ tl" "\<forall>i h g. HandlerCall i h g \<notin> set tl"
      by (auto simp: emit_def)
    let ?evs = "KnxDebugReceived f # xs @ tl"
    have e: "events w1 = events w @ ?evs" using tl b by simp
    have "\<forall>i h g. HandlerCall i h g \<in> set ?evs \<longrightarrow> raw \<noteq> [] \<and> from_knx (xknx c) raw = Inr g"
      using tl(2) x False Inr by (auto simp: list_all_iff)
    with e show ?thesis by blast
  qed
qed

text \<open>
  Claim C3. Empty input is dropped whatever the decoder would do with it. When the decoder
  raises \<^verbatim>\<open>CouldNotParseKNXIP\<close> the exception is logged and the call returns normally, with
  no other event and the client untouched. A handler is called only for a frame the decoder
  returned, and a decoded frame goes to \<open>handle_knxipframe\<close>: the call does what the
  dispatch does, unless that raises \<^verbatim>\<open>CouldNotParseKNXIP\<close>.
\<close>

theorem data_received_callback_drops_undecodable:
  "data_received_callback fuel from_knx hb c [] w = (Some (Inr ()), c, w)
   \<and> (raw \<noteq> [] \<and> from_knx (xknx c) raw = Inl (CouldNotParseKNXIP m) \<longrightarrow>
        data_received_callback fuel from_knx hb c raw w
          = (Some (Inr ()), c, emit (LogException (CouldNotParseKNXIP m)) w))
   \<and> (\<forall>i h g. HandlerCall i h g
                 \<in> set (new_events w (snd (snd (data_received_callback fuel from_knx hb c raw w))))
          \<longrightarrow> raw \<noteq> [] \<and> from_knx (xknx c) raw = Inr g)
   \<and> (raw \<noteq> [] \<and> from_knx (xknx c) raw = Inr f \<and>
        (\<forall>m. fst (handle_knxipframe fuel hb c f (emit (KnxDebugReceived f) w))
               \<noteq> Some (Inl (CouldNotParseKNXIP m))) \<longrightarrow>
        data_received_callback fuel from_knx hb c raw w
          = handle_knxipframe fuel hb c f (emit (KnxDebugReceived f) w))
   \<and> (raw \<noteq> [] \<and> from_knx (xknx c) raw = Inr f \<and> length (callbacks c) < fuel \<and>
        (\<forall>cb\<in>set (matching f (callbacks c)). hb (callback cb) f c = Returns) \<longrightarrow>
        data_received_callback fuel from_knx hb c raw w
          = handle_knxipframe fuel hb c f (emit (KnxDebugReceived f) w) \<and>
        fst (data_received_callback fuel from_knx hb c raw w) = Some (Inr ()))"
proof -
  let ?d = "data_received_callback fuel from_knx hb c raw w"
  let ?h = "handle_knxipframe fuel hb c f (emit (KnxDebugReceived f) w)"
  have 1: "data_received_callback fuel from_knx hb c [] w = (Some (Inr ()), c, w)"
    by (rule drc_empty)
  have 2: "raw \<noteq> [] \<and> from_knx (xknx c) raw = Inl (CouldNotParseKNXIP m) \<longrightarrow>
        ?d = (Some (Inr ()), c, emit (LogException (CouldNotParseKNXIP m)) w)"
    using drc_parse_error[where from_knx = from_knx and c = c and raw = raw and m = m]
    by blast
  have 3: "\<forall>i h g. HandlerCall i h g \<in> set (new_events w (snd (snd ?d))) \<longrightarrow>
             raw \<noteq> [] \<and> from_knx (xknx c) raw = Inr g"
  proof -
    have "?d = (fst ?d, fst (snd ?d), snd (snd ?d))" by simp
    from data_received_callback_shape[OF this] obtain evs where
      e: "events (snd (snd ?d)) = events w @ evs"
      and h: "\<forall>i h g. HandlerCall i h g \<in> set evs \<longrightarrow> raw \<noteq> [] \<and> from_knx (xknx c) raw = Inr g"
      by blast
    from new_events_append[OF e] h show ?thesis by simp
  qed
  have 4: "raw \<noteq> [] \<and> from_knx (xknx c) raw = Inr f \<and>
        (\<forall>m. fst ?h \<noteq> Some (Inl (CouldNotParseKNXIP m))) \<longrightarrow> ?d = ?h"
  proof (intro impI, elim conjE)
    assume r: "raw \<noteq> []" and d: "from_knx (xknx c) raw = Inr f"
      and n: "\<forall>m. fst ?h \<noteq> Some (Inl (CouldNotParseKNXIP m))"
    have h: "?h = (fst ?h, fst (snd ?h), snd (snd ?h))" by simp
    from drc_decoded[where from_knx = from_knx and hb = hb and c = c, OF r d h] n
    show "?d = ?h" by auto
  qed
  have 5: "raw \<noteq> [] \<and> from_knx (xknx c) raw = Inr f \<and> length (callbacks c) < fuel \<and>
        (\<forall>cb\<in>set (matching f (callbacks c)). hb (callback cb) f c = Returns) \<longrightarrow>
        ?d = ?h \<and> fst ?d = Some (Inr ())"
  proof (intro impI, elim conjE)
    assume r: "raw \<noteq> []" and d: "from_knx (xknx c) raw = Inr f"
      and l: "length (callbacks c) < fuel"
      and q: "\<forall>cb\<in>set (matching f (callbacks c)). hb (callback cb) f c = Returns"
    have n: "fst ?h = Some (Inr ())"
      by (simp add: handle_knxipframe_normal[where hb = hb and f = f and c = c, OF q l])
    then have "\<forall>m. fst ?h \<noteq> Some (Inl (CouldNotParseKNXIP m))" by simp
    with 4 r d have "?d = ?h" by blast
    with n show "?d = ?h \<and> fst ?d = Some (Inr ())" by simp
  qed
  show ?thesis
    by (intro conjI) (rule 1, rule 2, rule 3, rule 4, rule 5)
qed

theorem data_received_callback_drops_undecodable_witness:
  "data_received_callback 4 from_header quiet reg_client [] w3 = (Some (Inr ()), reg_client, w3) \<and>
   [6, 16, 2] \<noteq> ([] :: bytes) \<and>
   from_header (xknx reg_client) [6, 16, 2]
     = Inl (CouldNotParseKNXIP ''wrong connection header length'') \<and>
   data_received_callback 4 from_header quiet reg_client [6, 16, 2] w3
     = (Some (Inr ()), reg_client,
        emit (LogException (CouldNotParseKNXIP ''wrong connection header length'')) w3) \<and>
   from_header (xknx reg_client) [6, 16, 2, 1, 0, 6] = Inr frame_0201 \<and>
   length (callbacks reg_client) < 4 \<and>
   list_all (\<lambda>cb. quiet (callback cb) frame_0201 reg_client = Returns)
     (matching frame_0201 (callbacks reg_client)) \<and>
   data_received_callback 4 from_header quiet reg_client [6, 16, 2, 1, 0, 6] w3
     = handle_knxipframe 4 quiet reg_client frame_0201 (emit (KnxDebugReceived frame_0201) w3) \<and>
   fst (data_received_callback 4 from_header quiet reg_client [6, 16, 2, 1, 0, 6] w3)
     = Some (Inr ()) \<and>
   new_events w3 (snd (snd (data_received_callback 4 from_header quiet reg_client
                              [6, 16, 2, 1, 0, 6] w3)))
     = [KnxDebugReceived frame_0201, HandlerCall 0 10 frame_0201, HandlerCall 1 11 frame_0201]"
proof -
  have n4: "(4::nat) = Suc (Suc (Suc (Suc 0)))" by simp
  have e: "new_events w3 (snd (snd (handle_knxipframe 4 quiet reg_client frame_0201
                                 (emit (KnxDebugReceived frame_0201) w3))))
     = [KnxDebugReceived frame_0201, HandlerCall 0 10 frame_0201, HandlerCall 1 11 frame_0201]"
    unfolding n4
    by (simp add: handle_knxipframe_def has_service_def emit_def quiet_def new_events_def
        reg_client_def w3_def cb_all_def cb_0201_def cb_0203_def frame_0201_def)
  have ne: "[6, 16, 2] \<noteq> ([] :: bytes)" "[6, 16, 2, 1, 0, 6] \<noteq> ([] :: bytes)" by simp_all
  have a: "from_header (xknx reg_client) [6, 16, 2]
             = Inl (CouldNotParseKNXIP ''wrong connection header length'')"
    by (simp add: from_header_def)
  have b: "from_header (xknx reg_client) [6, 16, 2, 1, 0, 6] = Inr frame_0201"
    by (simp add: from_header_def frame_0201_def)
  have l: "length (callbacks reg_client) < 4" by (simp add: reg_client_def)
  have q: "\<forall>cb\<in>set (matching frame_0201 (callbacks reg_client)).
             quiet (callback cb) frame_0201 reg_client = Returns"
    by (simp add: quiet_def)
  note t1 = data_received_callback_drops_undecodable[where from_knx = from_header and hb = quiet
      and c = reg_client and w = w3 and raw = "[6, 16, 2]" and fuel = 4 and f = frame_0201
      and m = "''wrong connection header length''"]
  note t2 = data_received_callback_drops_undecodable[where from_knx = from_header and hb = quiet
      and c = reg_client and w = w3 and raw = "[6, 16, 2, 1, 0, 6]" and fuel = 4 and f = frame_0201
      and m = "''wrong connection header length''"]
  from t1 have 1: "data_received_callback 4 from_header quiet reg_client [] w3
                     = (Some (Inr ()), reg_client, w3)"
    by blast
  from t1 ne(1) a have 2: "data_received_callback 4 from_header quiet reg_client [6, 16, 2] w3
     = (Some (Inr ()), reg_client,
        emit (LogException (CouldNotParseKNXIP ''wrong connection header length'')) w3)"
    by blast
  from t2 ne(2) b l q
  have 3: "data_received_callback 4 from_header quiet reg_client [6, 16, 2, 1, 0, 6] w3
     = handle_knxipframe 4 quiet reg_client frame_0201 (emit (KnxDebugReceived frame_0201) w3)"
    and 4: "fst (data_received_callback 4 from_header quiet reg_client [6, 16, 2, 1, 0, 6] w3)
     = Some (Inr ())"
    by blast+
  have 5: "new_events w3 (snd (snd (data_received_callback 4 from_header quiet reg_client
                              [6, 16, 2, 1, 0, 6] w3)))
     = [KnxDebugReceived frame_0201, HandlerCall 0 10 frame_0201, HandlerCall 1 11 frame_0201]"
    unfolding 3 by (rule e)
  have q': "list_all (\<lambda>cb. quiet (callback cb) frame_0201 reg_client = Returns)
     (matching frame_0201 (callbacks reg_client))"
    using q by (simp add: list_all_iff)
  show ?thesis
    by (intro conjI) (rule 1, rule ne(1), rule a, rule 2, rule b, rule l, rule q', rule 3, rule 4,
        rule 5)
qed

section \<open>Sending\<close>

text \<open>
  Claim C7. On a connected client \<^verbatim>\<open>send\<close> writes the encoded frame to the transport: with
  \<^verbatim>\<open>multicast\<close> set the write names \<^verbatim>\<open>remote_addr\<close> as its destination, otherwise it names
  none. A unicast \<^verbatim>\<open>connect\<close> has opened the endpoint with \<^verbatim>\<open>remote_addr\<close> as its peer.
\<close>

theorem send_addresses_by_multicast_flag:
  "(transport c = Some t \<and> multicast c \<longrightarrow>
      send to_knx c f w
        = (Inr (), emit (TransportSendto t (to_knx f) (Some (remote_addr c)))
                     (emit (KnxDebugSending f) w)))
   \<and> (transport c = Some t \<and> \<not> multicast c \<longrightarrow>
      send to_knx c f w
        = (Inr (), emit (TransportSendto t (to_knx f) None) (emit (KnxDebugSending f) w)))
   \<and> (connect platform os aton loop c = (Inr (), c1) \<longrightarrow>
        multicast c1 = multicast c \<and> remote_addr c1 = remote_addr c \<and>
        (if multicast c then \<exists>s. transport c1 = Some (Transport (SockEndpoint s))
         else transport c1 = Some (Transport (AddrEndpoint (local_addr c) (remote_addr c)))))"
proof -
  have 1: "transport c = Some t \<and> multicast c \<longrightarrow>
      send to_knx c f w
        = (Inr (), emit (TransportSendto t (to_knx f) (Some (remote_addr c)))
                     (emit (KnxDebugSending f) w))"
    by (simp add: send_def)
  have 2: "transport c = Some t \<and> \<not> multicast c \<longrightarrow>
      send to_knx c f w
        = (Inr (), emit (TransportSendto t (to_knx f) None) (emit (KnxDebugSending f) w))"
    by (simp add: send_def)
  have 3: "connect platform os aton loop c = (Inr (), c1) \<longrightarrow>
        multicast c1 = multicast c \<and> remote_addr c1 = remote_addr c \<and>
        (if multicast c then \<exists>s. transport c1 = Some (Transport (SockEndpoint s))
         else transport c1 = Some (Transport (AddrEndpoint (local_addr c) (remote_addr c))))"
  proof (cases "multicast c")
    case True
    then show ?thesis
      by (auto simp: connect_def create_datagram_endpoint_def bind_exn_def
          split: sum.splits option.splits)
  next
    case False
    then show ?thesis
      by (auto simp: connect_def create_datagram_endpoint_def
          split: sum.splits option.splits)
  qed
  show ?thesis
    by (intro conjI) (rule 1, rule 2, rule 3)
qed




theorem send_addresses_by_multicast_flag_witness:
  "connect ''linux'' os_accepts aton4 loop_accepts ucast_client
     = (Inr (), ucast_client\<lparr>transport := Some (Transport (AddrEndpoint local_any gateway))\<rparr>) \<and>
   send to_body (ucast_client\<lparr>transport := Some (Transport (AddrEndpoint local_any gateway))\<rparr>)
       frame_0201 w0
     = (Inr (), emit (TransportSendto (Transport (AddrEndpoint local_any gateway))
                        [6, 16, 2, 1, 0, 6] None)
                  (emit (KnxDebugSending frame_0201) w0)) \<and>
   send to_body (mcast_client\<lparr>transport := Some (Transport (AddrEndpoint local_any knx_group))\<rparr>)
       frame_0201 w0
     = (Inr (), emit (TransportSendto (Transport (AddrEndpoint local_any knx_group))
                        [6, 16, 2, 1, 0, 6] (Some knx_group))
                  (emit (KnxDebugSending frame_0201) w0))"
proof -
  have k: "connect ''linux'' os_accepts aton4 loop_accepts ucast_client
     = (Inr (), ucast_client\<lparr>transport := Some (Transport (AddrEndpoint local_any gateway))\<rparr>)"
    by (simp add: connect_def ucast_client_def local_any_def gateway_def
        create_datagram_endpoint_def loop_accepts_def)
  from k
    send_addresses_by_multicast_flag[where to_knx = to_body and f = frame_0201 and w = w0
      and c = "ucast_client\<lparr>transport := Some (Transport (AddrEndpoint local_any gateway))\<rparr>"
      and t = "Transport (AddrEndpoint local_any gateway)"]
    send_addresses_by_multicast_flag[where to_knx = to_body and f = frame_0201 and w = w0
      and c = "mcast_client\<lparr>transport := Some (Transport (AddrEndpoint local_any knx_group))\<rparr>"
      and t = "Transport (AddrEndpoint local_any knx_group)"]
  show ?thesis
    by (simp add: ucast_client_def mcast_client_def to_body_def frame_0201_def)
qed

section \<open>The registry\<close>

lemma list_remove_absent:
  "ident x \<notin> ident ` set xs \<Longrightarrow> list_remove xs x = Inl ValueError"
  by (induction xs) auto

text \<open>
  Claim C9. Unregistering a handle that is not in the list raises \<^verbatim>\<open>ValueError\<close> and leaves
  the client, its registration list included, as it was.
\<close>

theorem unregister_absent_changes_nothing:
  "ident h \<notin> ident ` set (callbacks c) \<Longrightarrow> unregister_callback c h = (Inl ValueError, c)"
  by (simp add: unregister_callback_def list_remove_absent)

theorem unregister_absent_changes_nothing_witness:
  "ident cb_absent \<notin> ident ` set (callbacks reg_client) \<and>
   unregister_callback reg_client cb_absent = (Inl ValueError, reg_client)"
proof -
  have a: "ident cb_absent \<notin> ident ` set (callbacks reg_client)"
    by (simp add: reg_client_def cb_absent_def cb_all_def cb_0201_def cb_0203_def)
  from unregister_absent_changes_nothing[OF a] a show ?thesis by simp
qed

section \<open>The unconnected client\<close>

text \<open>
  Claim C10. While \<^verbatim>\<open>self.transport\<close> is \<^verbatim>\<open>None\<close>, \<^verbatim>\<open>stop\<close>, \<^verbatim>\<open>getsockname\<close> and \<^verbatim>\<open>getremote\<close>
  fail with the \<^verbatim>\<open>AttributeError\<close> of reading an attribute of \<^verbatim>\<open>None\<close>; only \<^verbatim>\<open>send\<close> checks
  for it and raises \<^verbatim>\<open>XKNXException\<close>.
\<close>

theorem unconnected_methods_dereference_None:
  "transport c = None \<Longrightarrow>
     stop c w = (Inl (AttributeError ''close''), w)
   \<and> getsockname get_extra_info c = Inl (AttributeError ''get_extra_info'')
   \<and> getremote get_extra_info c = Inl (AttributeError ''get_extra_info'')
   \<and> send to_knx c f w
       = (Inl (XKNXException ''Transport not connected''), emit (KnxDebugSending f) w)"
  by (simp add: stop_def getsockname_def getremote_def send_def)

theorem unconnected_methods_dereference_None_witness:
  "UDPClient_init 0 local_any knx_group True = Inr mcast_client
   \<and> transport mcast_client = None
   \<and> stop mcast_client w0 = (Inl (AttributeError ''close''), w0)
   \<and> getsockname no_extra_info mcast_client = Inl (AttributeError ''get_extra_info'')
   \<and> getremote no_extra_info mcast_client = Inl (AttributeError ''get_extra_info'')
   \<and> send to_body mcast_client frame_0201 w0
       = (Inl (XKNXException ''Transport not connected''), emit (KnxDebugSending frame_0201) w0)"
proof -
  have i: "UDPClient_init 0 local_any knx_group True = Inr mcast_client"
    by (simp add: UDPClient_init_def local_any_def knx_group_def mcast_client_def)
  have t: "transport mcast_client = None"
    by (simp add: mcast_client_def)
  from unconnected_methods_dereference_None[OF t, of w0 no_extra_info to_body frame_0201] i t
  show ?thesis by simp
qed

section \<open>Construction\<close>

lemma wellformed_addr_tuple: "wellformed_addr v \<Longrightarrow> isinstance_tuple v"
  by (cases v) auto

text \<open>
  Claim C4, as the code has it. The constructor tests \<^verbatim>\<open>isinstance(..., tuple)\<close> on both
  addresses and nothing else: two tuples, well-formed (host, port) pairs among them, always
  give a client, and anything that is not a tuple raises \<^verbatim>\<open>TypeError\<close>. Neither the length
  of a tuple nor the types of its elements are looked at.
\<close>

theorem init_checks_tuple_only:
  "(wellformed_addr la \<and> wellformed_addr ra \<longrightarrow>
      UDPClient_init x la ra mc =
        Inr \<lparr>xknx = x, local_addr = la, remote_addr = ra, multicast = mc,
             transport = None, callbacks = []\<rparr>)
   \<and> (isinstance_tuple la \<and> isinstance_tuple ra \<longrightarrow>
      UDPClient_init x la ra mc =
        Inr \<lparr>xknx = x, local_addr = la, remote_addr = ra, multicast = mc,
             transport = None, callbacks = []\<rparr>)
   \<and> (\<not> (isinstance_tuple la \<and> isinstance_tuple ra) \<longrightarrow>
      UDPClient_init x la ra mc = Inl TypeError)"
  by (auto simp: UDPClient_init_def wellformed_addr_tuple)

theorem init_checks_tuple_only_witness:
  "wellformed_addr local_any \<and> wellformed_addr knx_group \<and>
   UDPClient_init 0 local_any knx_group True = Inr mcast_client \<and>
   \<not> isinstance_tuple (PyList [PyStr ''0.0.0.0'', PyInt 0]) \<and>
   UDPClient_init 0 (PyList [PyStr ''0.0.0.0'', PyInt 0]) knx_group True = Inl TypeError"
proof -
  have a: "wellformed_addr local_any" "wellformed_addr knx_group"
    by (simp_all add: local_any_def knx_group_def)
  have b: "\<not> isinstance_tuple (PyList [PyStr ''0.0.0.0'', PyInt 0])" by simp
  from init_checks_tuple_only[of local_any knx_group 0 True]
    init_checks_tuple_only[of "PyList [PyStr ''0.0.0.0'', PyInt 0]" knx_group 0 True] a b
  show ?thesis by (simp add: mcast_client_def)
qed

text \<open>
  Claim C4 as stated fails: a 1-tuple holding an integer is not a (string, integer) pair,
  and construction succeeds.
\<close>

theorem init_accepts_misshaped_tuple:
  "\<not> wellformed_addr (PyTuple [PyInt 1]) \<and>
   UDPClient_init 0 (PyTuple [PyInt 1]) knx_group False
     = Inr \<lparr>xknx = 0, local_addr = PyTuple [PyInt 1], remote_addr = knx_group,
            multicast = False, transport = None, callbacks = []\<rparr>"
  by (simp add: UDPClient_init_def knx_group_def)

section \<open>The guard of send\<close>

text \<open>No method reads the event list: with other events before it, a call does the same.\<close>

lemma run_handler_events:
  "run_handler t c w = (r, c1, w1) \<Longrightarrow>
   run_handler t c (w\<lparr>events := evs\<rparr>) = (r, c1, w1\<lparr>events := evs\<rparr>)"
proof (induction t arbitrary: c w)
  case Returns
  then show ?case by auto
next
  case (Raises e)
  then show ?case by auto
next
  case (Registers cb sts k)
  let ?callb = "fst (register_callback c cb sts w)"
  let ?c = "fst (snd (register_callback c cb sts w))"
  let ?w = "snd (snd (register_callback c cb sts w))"
  from Registers.prems have "run_handler (k ?callb) ?c ?w = (r, c1, w1)"
    by (simp add: case_prod_beta)
  from Registers.IH[OF _ this] have
    "run_handler (k ?callb) ?c (?w\<lparr>events := evs\<rparr>) = (r, c1, w1\<lparr>events := evs\<rparr>)"
    by (simp add: range_eqI)
  moreover have "register_callback c cb sts (w\<lparr>events := evs\<rparr>) = (?callb, ?c, ?w\<lparr>events := evs\<rparr>)"
    by (simp add: register_callback_def Let_def)
  ultimately show ?case by simp
next
  case (Unregisters callb k)
  let ?r = "fst (unregister_callback c callb)"
  let ?c = "snd (unregister_callback c callb)"
  from Unregisters.prems have "run_handler (k ?r) ?c w = (r, c1, w1)"
    by (simp add: case_prod_beta)
  from Unregisters.IH[OF _ this] show ?case
    by (simp add: range_eqI case_prod_beta)
qed

lemma dispatch_loop_events:
  "dispatch_loop fuel hb f i handled c w = (r, c1, w1) \<Longrightarrow>
   dispatch_loop fuel hb f i handled c (w\<lparr>events := evs\<rparr>)
     = (r, c1, w1\<lparr>events := evs @ new_events w w1\<rparr>)"
proof (induction fuel arbitrary: i handled c w evs)
  case 0
  then show ?case by (auto simp: new_events_def)
next
  case (Suc n)
  let ?cb = "callbacks c ! i"
  let ?call = "HandlerCall (ident ?cb) (callback ?cb) f"
  show ?case
  proof (cases "i < length (callbacks c)")
    case False
    with Suc.prems show ?thesis by (auto simp: new_events_def)
  next
    case True
    show ?thesis
    proof (cases "has_service ?cb (service_type_ident (header f))")
      case False
      with True Suc.prems have "dispatch_loop n hb f (Suc i) handled c w = (r, c1, w1)" by simp
      from Suc.IH[OF this, of evs] True False show ?thesis by simp
    next
      case m: True
      obtain r0 c0 v where h: "run_handler (hb (callback ?cb) f c) c (emit ?call w) = (r0, c0, v)"
        by (cases "run_handler (hb (callback ?cb) f c) c (emit ?call w)") auto
      from run_handler_shape[OF h] have ev: "events v = events w @ [?call]"
        by (simp add: emit_def)
      have "emit ?call (w\<lparr>events := evs\<rparr>) = (emit ?call w)\<lparr>events := evs @ [?call]\<rparr>"
        by (simp add: emit_def)
      with run_handler_events[OF h, of "evs @ [?call]"]
      have h': "run_handler (hb (callback ?cb) f c) c (emit ?call (w\<lparr>events := evs\<rparr>))
                  = (r0, c0, v\<lparr>events := evs @ [?call]\<rparr>)"
        by simp
      show ?thesis
      proof (cases r0)
        case (Some e)
        with True m h Suc.prems have "r = Some (Inl e)" "c1 = c0" "w1 = v" by simp_all
        with True m h' Some ev show ?thesis by (simp add: new_events_def)
      next
        case None
        with True m h Suc.prems have d: "dispatch_loop n hb f (Suc i) True c0 v = (r, c1, w1)"
          by simp
        from dispatch_loop_shape[OF d] obtain xs where x: "events w1 = events v @ xs" by blast
        have n: "new_events w w1 = ?call # new_events v w1"
          using x ev by (simp add: new_events_def)
        from Suc.IH[OF d, of "evs @ [?call]"] True m h' None n show ?thesis by simp
      qed
    qed
  qed
qed

lemma handle_knxipframe_events:
  assumes "handle_knxipframe fuel hb c f w = (r, c1, w1)"
  shows "handle_knxipframe fuel hb c f (w\<lparr>events := evs\<rparr>)
           = (r, c1, w1\<lparr>events := evs @ new_events w w1\<rparr>)"
proof -
  obtain r0 c0 v where d: "dispatch_loop fuel hb f 0 False c w = (r0, c0, v)"
    by (cases "dispatch_loop fuel hb f 0 False c w") auto
  from dispatch_loop_shape[OF d] obtain xs where x: "events v = events w @ xs" by blast
  note e = dispatch_loop_events[OF d, of evs]
  consider (unhandled) "r0 = Some (Inr False)" "r = Some (Inr ())"
      "w1 = emit (LogDebugUnhandled (service_type_ident (header f))) v" "c1 = c0"
    | (other) "r0 \<noteq> Some (Inr False)" "w1 = v" "c1 = c0"
        "r = (case r0 of None \<Rightarrow> None | Some (Inl e) \<Rightarrow> Some (Inl e) | Some (Inr b) \<Rightarrow> Some (Inr ()))"
    using assms d by (auto simp: handle_knxipframe_def split: option.splits sum.splits if_splits)
  then show ?thesis
  proof cases
    case unhandled
    with e x show ?thesis
      by (simp add: handle_knxipframe_def emit_def new_events_def)
  next
    case other
    with e show ?thesis
      by (auto simp: handle_knxipframe_def split: option.splits sum.splits)
  qed
qed

lemma data_received_callback_events:
  assumes "data_received_callback fuel from_knx hb c raw w = (r, c1, w1)"
  shows "data_received_callback fuel from_knx hb c raw (w\<lparr>events := evs\<rparr>)
           = (r, c1, w1\<lparr>events := evs @ new_events w w1\<rparr>)"
proof (cases "raw = []")
  case True
  with assms show ?thesis by (auto simp: drc_empty new_events_def)
next
  case False
  show ?thesis
  proof (cases "from_knx (xknx c) raw")
    case (Inl e)
    with False assms show ?thesis
      by (cases e) (auto simp: data_received_callback_def emit_def new_events_def)
  next
    case (Inr f)
    let ?w = "emit (KnxDebugReceived f) w"
    obtain r0 c0 v where h: "handle_knxipframe fuel hb c f ?w = (r0, c0, v)"
      by (cases "handle_knxipframe fuel hb c f ?w") auto
    from handle_knxipframe_shape[OF h] obtain xs where
      x: "events v = events w @ KnxDebugReceived f # xs"
      by (auto simp: emit_def)
    have n: "new_events w v = KnxDebugReceived f # new_events ?w v"
      using x by (simp add: new_events_def emit_def)
    have "emit (KnxDebugReceived f) (w\<lparr>events := evs\<rparr>) = ?w\<lparr>events := evs @ [KnxDebugReceived f]\<rparr>"
      by (simp add: emit_def)
    with handle_knxipframe_events[OF h, of "evs @ [KnxDebugReceived f]"] n
    have h': "handle_knxipframe fuel hb c f (emit (KnxDebugReceived f) (w\<lparr>events := evs\<rparr>))
                = (r0, c0, v\<lparr>events := evs @ new_events w v\<rparr>)"
      by simp
    from drc_decoded[where from_knx = from_knx and hb = hb and c = c, OF False Inr h] assms
    consider (caught) m where "r0 = Some (Inl (CouldNotParseKNXIP m))" "r = Some (Inr ())"
        "c1 = c0" "w1 = emit (LogException (CouldNotParseKNXIP m)) v"
      | (passed) "r = r0" "c1 = c0" "w1 = v" "\<forall>m. r0 \<noteq> Some (Inl (CouldNotParseKNXIP m))"
      by auto
    then show ?thesis
    proof cases
      case caught
      from drc_decoded[where from_knx = from_knx and hb = hb and c = c, OF False Inr h', of ]
        caught x
      show ?thesis
        by (auto simp: emit_def new_events_def)
    next
      case passed
      from drc_decoded[where from_knx = from_knx and hb = hb and c = c, OF False Inr h'] passed
      show ?thesis by auto
    qed
  qed
qed

lemma connect_failure_keeps_client:
  "fst (connect platform os aton loop c) \<noteq> Inr () \<Longrightarrow> snd (connect platform os aton loop c) = c"
  by (auto simp: connect_def split: sum.splits if_splits)

text \<open>
  Claim C1 as stated fails after \<^verbatim>\<open>stop\<close>: \<^verbatim>\<open>stop\<close> closes the transport and keeps the
  reference, so a later \<^verbatim>\<open>send\<close> passes the guard and hands the bytes to the closed
  transport.
\<close>

theorem send_after_stop_is_not_rejected:
  "connect ''linux'' os_accepts aton4 loop_accepts ucast_client = (Inr (), connected_ucast) \<and>
   stop connected_ucast w0 = (Inr (), emit (TransportClose ucast_transport) w0) \<and>
   send to_body connected_ucast frame_0201 (emit (TransportClose ucast_transport) w0)
     = (Inr (), \<lparr>events = [TransportClose ucast_transport, KnxDebugSending frame_0201,
                           TransportSendto ucast_transport [6, 16, 2, 1, 0, 6] None],
                 next_id = 0\<rparr>)"
proof -
  have 1: "connect ''linux'' os_accepts aton4 loop_accepts ucast_client = (Inr (), connected_ucast)"
    by (simp add: connect_def ucast_client_def connected_ucast_def ucast_transport_def
        local_any_def gateway_def create_datagram_endpoint_def loop_accepts_def)
  have 2: "stop connected_ucast w0 = (Inr (), emit (TransportClose ucast_transport) w0)"
    by (simp add: stop_def connected_ucast_def)
  have 3: "send to_body connected_ucast frame_0201 (emit (TransportClose ucast_transport) w0)
     = (Inr (), \<lparr>events = [TransportClose ucast_transport, KnxDebugSending frame_0201,
                           TransportSendto ucast_transport [6, 16, 2, 1, 0, 6] None],
                 next_id = 0\<rparr>)"
    by (simp add: send_def connected_ucast_def ucast_client_def emit_def w0_def to_body_def
        frame_0201_def)
  show ?thesis by (intro conjI) (rule 1, rule 2, rule 3)
qed


text \<open>
  Claim C1, as the code has it. \<^verbatim>\<open>send\<close> raises \<^verbatim>\<open>XKNXException("Transport not connected")\<close>
  exactly when \<^verbatim>\<open>self.transport\<close> is \<^verbatim>\<open>None\<close>: on a new client, and still after a \<^verbatim>\<open>connect\<close>
  that failed. \<^verbatim>\<open>stop\<close> on a connected client closes the transport and the guard lets the
  next \<^verbatim>\<open>send\<close> through. A rejected \<^verbatim>\<open>send\<close> leaves the client alone and adds one debug record
  to the world; registering a callback and receiving bytes then do what they would have
  done without it.
\<close>

theorem send_rejected_iff_transport_None:
  "(fst (send to_knx c f w) = Inl (XKNXException ''Transport not connected'')
      \<longleftrightarrow> transport c = None)
   \<and> (transport c = None \<longrightarrow>
        send to_knx c f w
          = (Inl (XKNXException ''Transport not connected''), emit (KnxDebugSending f) w))
   \<and> (UDPClient_init x la ra mc = Inr c \<longrightarrow> transport c = None)
   \<and> (fst (connect platform os aton loop c) \<noteq> Inr () \<longrightarrow>
        snd (connect platform os aton loop c) = c)
   \<and> (transport c = Some t \<longrightarrow>
        stop c w = (Inr (), emit (TransportClose t) w) \<and>
        fst (send to_knx c f (snd (stop c w))) = Inr ())
   \<and> (transport c = None \<longrightarrow>
        fst (register_callback c cb sts (snd (send to_knx c f w)))
          = fst (register_callback c cb sts w) \<and>
        fst (snd (register_callback c cb sts (snd (send to_knx c f w))))
          = fst (snd (register_callback c cb sts w)) \<and>
        fst (data_received_callback fuel from_knx hb c raw (snd (send to_knx c f w)))
          = fst (data_received_callback fuel from_knx hb c raw w) \<and>
        fst (snd (data_received_callback fuel from_knx hb c raw (snd (send to_knx c f w))))
          = fst (snd (data_received_callback fuel from_knx hb c raw w)) \<and>
        new_events (snd (send to_knx c f w))
            (snd (snd (data_received_callback fuel from_knx hb c raw (snd (send to_knx c f w)))))
          = new_events w (snd (snd (data_received_callback fuel from_knx hb c raw w))))"
proof -
  have 1: "fst (send to_knx c f w) = Inl (XKNXException ''Transport not connected'')
             \<longleftrightarrow> transport c = None"
    by (cases "transport c") (simp_all add: send_def Let_def)
  have 2: "transport c = None \<longrightarrow>
        send to_knx c f w
          = (Inl (XKNXException ''Transport not connected''), emit (KnxDebugSending f) w)"
    by (simp add: send_def)
  have 3: "UDPClient_init x la ra mc = Inr c \<longrightarrow> transport c = None"
    by (auto simp: UDPClient_init_def split: if_splits)
  have 4: "fst (connect platform os aton loop c) \<noteq> Inr () \<longrightarrow>
        snd (connect platform os aton loop c) = c"
    using connect_failure_keeps_client by blast
  have 5: "transport c = Some t \<longrightarrow>
        stop c w = (Inr (), emit (TransportClose t) w) \<and>
        fst (send to_knx c f (snd (stop c w))) = Inr ()"
    by (simp add: stop_def send_def Let_def)
  have 6: "transport c = None \<longrightarrow>
        fst (register_callback c cb sts (snd (send to_knx c f w)))
          = fst (register_callback c cb sts w) \<and>
        fst (snd (register_callback c cb sts (snd (send to_knx c f w))))
          = fst (snd (register_callback c cb sts w)) \<and>
        fst (data_received_callback fuel from_knx hb c raw (snd (send to_knx c f w)))
          = fst (data_received_callback fuel from_knx hb c raw w) \<and>
        fst (snd (data_received_callback fuel from_knx hb c raw (snd (send to_knx c f w))))
          = fst (snd (data_received_callback fuel from_knx hb c raw w)) \<and>
        new_events (snd (send to_knx c f w))
            (snd (snd (data_received_callback fuel from_knx hb c raw (snd (send to_knx c f w)))))
          = new_events w (snd (snd (data_received_callback fuel from_knx hb c raw w)))"
  proof
    assume n: "transport c = None"
    let ?e = "events w @ [KnxDebugSending f]"
    let ?d = "data_received_callback fuel from_knx hb c raw w"
    have s: "snd (send to_knx c f w) = w\<lparr>events := ?e\<rparr>"
      using n by (simp add: send_def emit_def)
    have "?d = (fst ?d, fst (snd ?d), snd (snd ?d))" by simp
    from data_received_callback_events[OF this, of ?e]
    have d: "data_received_callback fuel from_knx hb c raw (w\<lparr>events := ?e\<rparr>)
               = (fst ?d, fst (snd ?d),
                  (snd (snd ?d))\<lparr>events := ?e @ new_events w (snd (snd ?d))\<rparr>)" .
    have r: "fst (register_callback c cb sts (w\<lparr>events := ?e\<rparr>))
               = fst (register_callback c cb sts w)"
      "fst (snd (register_callback c cb sts (w\<lparr>events := ?e\<rparr>)))
               = fst (snd (register_callback c cb sts w))"
      by (simp_all add: register_callback_def Let_def)
    have ne: "new_events (w\<lparr>events := ?e\<rparr>)
                ((snd (snd ?d))\<lparr>events := ?e @ new_events w (snd (snd ?d))\<rparr>)
                = new_events w (snd (snd ?d))"
      by (simp add: new_events_def)
    show "fst (register_callback c cb sts (snd (send to_knx c f w)))
          = fst (register_callback c cb sts w) \<and>
        fst (snd (register_callback c cb sts (snd (send to_knx c f w))))
          = fst (snd (register_callback c cb sts w)) \<and>
        fst (data_received_callback fuel from_knx hb c raw (snd (send to_knx c f w)))
          = fst (data_received_callback fuel from_knx hb c raw w) \<and>
        fst (snd (data_received_callback fuel from_knx hb c raw (snd (send to_knx c f w))))
          = fst (snd (data_received_callback fuel from_knx hb c raw w)) \<and>
        new_events (snd (send to_knx c f w))
            (snd (snd (data_received_callback fuel from_knx hb c raw (snd (send to_knx c f w)))))
          = new_events w (snd (snd (data_received_callback fuel from_knx hb c raw w)))"
      unfolding s d using r ne by simp
  qed
  show ?thesis
    by (intro conjI) (rule 1, rule 2, rule 3, rule 4, rule 5, rule 6)
qed

theorem send_rejected_iff_transport_None_witness:
  "UDPClient_init 0 local_any gateway False = Inr ucast_client \<and>
   transport ucast_client = None \<and>
   send to_body ucast_client frame_0201 w3
     = (Inl (XKNXException ''Transport not connected''), emit (KnxDebugSending frame_0201) w3) \<and>
   fst (connect ''linux'' os_accepts aton4 loop_refuses ucast_client) = Inl OSError \<and>
   snd (connect ''linux'' os_accepts aton4 loop_refuses ucast_client) = ucast_client \<and>
   transport connected_ucast = Some ucast_transport \<and>
   stop connected_ucast w0 = (Inr (), emit (TransportClose ucast_transport) w0) \<and>
   fst (send to_body connected_ucast frame_0201 (snd (stop connected_ucast w0))) = Inr ()"
proof -
  have i: "UDPClient_init 0 local_any gateway False = Inr ucast_client"
    by (simp add: UDPClient_init_def local_any_def gateway_def ucast_client_def)
  have t: "transport ucast_client = None"
    by (simp add: ucast_client_def)
  have u: "transport connected_ucast = Some ucast_transport"
    by (simp add: connected_ucast_def)
  have k: "fst (connect ''linux'' os_accepts aton4 loop_refuses ucast_client) = Inl OSError"
    by (simp add: connect_def ucast_client_def local_any_def create_datagram_endpoint_def
        loop_refuses_def)
  then have k': "fst (connect ''linux'' os_accepts aton4 loop_refuses ucast_client) \<noteq> Inr ()"
    by simp
  note a = send_rejected_iff_transport_None[where c = ucast_client and to_knx = to_body
      and f = frame_0201 and w = w3 and x = 0 and la = local_any and ra = gateway and mc = False
      and platform = "''linux''" and os = os_accepts and aton = aton4 and loop = loop_refuses
      and t = ucast_transport and cb = 11 and sts = None and from_knx = from_header
      and hb = quiet and raw = "[6, 16, 2, 1, 0, 6]" and fuel = 4]
  note b = send_rejected_iff_transport_None[where c = connected_ucast and to_knx = to_body
      and f = frame_0201 and w = w0 and x = 0 and la = local_any and ra = gateway and mc = False
      and platform = "''linux''" and os = os_accepts and aton = aton4 and loop = loop_refuses
      and t = ucast_transport and cb = 11 and sts = None and from_knx = from_header
      and hb = quiet and raw = "[6, 16, 2, 1, 0, 6]" and fuel = 4]
  from a t have 1: "send to_body ucast_client frame_0201 w3
     = (Inl (XKNXException ''Transport not connected''), emit (KnxDebugSending frame_0201) w3)"
    by blast
  from a k' have 2: "snd (connect ''linux'' os_accepts aton4 loop_refuses ucast_client) = ucast_client"
    by blast
  from b u have 3: "stop connected_ucast w0 = (Inr (), emit (TransportClose ucast_transport) w0)"
    "fst (send to_body connected_ucast frame_0201 (snd (stop connected_ucast w0))) = Inr ()"
    by blast+
  show ?thesis
    by (intro conjI) (rule i, rule t, rule 1, rule k, rule 2, rule u, rule 3(1), rule 3(2))
qed

section \<open>Unregistration\<close>

lemma list_remove_subset: "list_remove xs x = Inr ys \<Longrightarrow> set ys \<subseteq> set xs"
  by (induction xs arbitrary: ys) (auto split: if_splits sum.splits)

lemma list_remove_distinct:
  "list_remove xs x = Inr ys \<Longrightarrow> distinct (map ident xs) \<Longrightarrow> distinct (map ident ys)"
proof (induction xs arbitrary: ys)
  case Nil
  then show ?case by simp
next
  case (Cons y xs)
  show ?case
  proof (cases "ident y = ident x")
    case True
    with Cons.prems show ?thesis by simp
  next
    case False
    with Cons.prems obtain zs where z: "list_remove xs x = Inr zs" "ys = y # zs"
      by (auto split: sum.splits)
    from list_remove_subset[OF z(1)] Cons.prems(2) have "ident y \<notin> ident ` set zs" by auto
    with Cons.IH[OF z(1)] Cons.prems(2) z(2) show ?thesis by simp
  qed
qed

lemma list_remove_present:
  "distinct (map ident xs) \<Longrightarrow> ident x \<in> ident ` set xs \<Longrightarrow>
   list_remove xs x = Inr (filter (\<lambda>y. ident y \<noteq> ident x) xs)"
proof (induction xs)
  case Nil
  then show ?case by simp
next
  case (Cons y xs)
  show ?case
  proof (cases "ident y = ident x")
    case True
    from Cons.prems(1) have "ident y \<notin> ident ` set xs" by simp
    with True have "\<forall>z\<in>set xs. ident z \<noteq> ident x" by (metis imageI)
    then have "filter (\<lambda>y. ident y \<noteq> ident x) xs = xs" by (simp add: filter_id_conv)
    with True show ?thesis by simp
  next
    case False
    with Cons show ?thesis by auto
  qed
qed

text \<open>The public methods, and handlers acting through them, keep the registry's invariant.\<close>

lemma registry_inv_init:
  "UDPClient_init x la ra mc = Inr c \<Longrightarrow> registry_inv c w"
  by (auto simp: UDPClient_init_def registry_inv_def split: if_splits)

lemma registry_inv_emit [simp]: "registry_inv c (emit e w) = registry_inv c w"
  by (simp add: registry_inv_def emit_def)

lemma registry_inv_register:
  assumes "registry_inv c w" and "register_callback c cb sts w = (callb, c1, w1)"
  shows "registry_inv c1 w1"
proof -
  from assms(2) have c1: "callbacks c1 = callbacks c @ [Callback_init (next_id w) cb
        (Some (case sts of None \<Rightarrow> [] | Some xs \<Rightarrow> xs))]"
    and w1: "next_id w1 = Suc (next_id w)"
    by (auto simp: register_callback_def Let_def)
  from assms(1) have d: "distinct (map ident (callbacks c))"
    and l: "\<forall>cb\<in>set (callbacks c). ident cb < next_id w"
    by (simp_all add: registry_inv_def list_all_iff)
  from l have "next_id w \<notin> ident ` set (callbacks c)" by auto
  with d l show ?thesis
    unfolding registry_inv_def c1 w1
    by (auto simp: Callback_init_def list_all_iff less_Suc_eq)
qed

lemma registry_inv_unregister:
  assumes "registry_inv c w"
  shows "registry_inv (snd (unregister_callback c callb)) w"
proof (cases "list_remove (callbacks c) callb")
  case (Inl e)
  with assms show ?thesis by (simp add: unregister_callback_def)
next
  case (Inr ys)
  from list_remove_subset[OF Inr] list_remove_distinct[OF Inr] assms Inr
  show ?thesis by (auto simp: unregister_callback_def registry_inv_def list_all_iff)
qed

lemma registry_inv_run_handler:
  "registry_inv c w \<Longrightarrow> run_handler t c w = (r, c1, w1) \<Longrightarrow> registry_inv c1 w1"
proof (induction t arbitrary: c w)
  case Returns
  then show ?case by simp
next
  case (Raises e)
  then show ?case by simp
next
  case (Registers cb sts k)
  let ?callb = "fst (register_callback c cb sts w)"
  let ?c = "fst (snd (register_callback c cb sts w))"
  let ?w = "snd (snd (register_callback c cb sts w))"
  have "register_callback c cb sts w = (?callb, ?c, ?w)" by simp
  from registry_inv_register[OF Registers.prems(1) this] have i: "registry_inv ?c ?w" .
  from Registers.prems(2) have "run_handler (k ?callb) ?c ?w = (r, c1, w1)"
    by (simp add: case_prod_beta)
  from Registers.IH[OF _ i this] show ?case by (simp add: range_eqI)
next
  case (Unregisters callb k)
  let ?r = "fst (unregister_callback c callb)"
  let ?c = "snd (unregister_callback c callb)"
  from registry_inv_unregister[OF Unregisters.prems(1)] have i: "registry_inv ?c w" .
  from Unregisters.prems(2) have "run_handler (k ?r) ?c w = (r, c1, w1)"
    by (simp add: case_prod_beta)
  from Unregisters.IH[OF _ i this] show ?case by (simp add: range_eqI)
qed

lemma registry_inv_dispatch_loop:
  "registry_inv c w \<Longrightarrow> dispatch_loop fuel hb f i handled c w = (r, c1, w1) \<Longrightarrow>
   registry_inv c1 w1"
proof (induction fuel arbitrary: i handled c w)
  case 0
  then show ?case by simp
next
  case (Suc n)
  let ?cb = "callbacks c ! i"
  let ?w = "emit (HandlerCall (ident ?cb) (callback ?cb) f) w"
  show ?case
  proof (cases "i < length (callbacks c)")
    case False
    with Suc.prems show ?thesis by simp
  next
    case True
    show ?thesis
    proof (cases "has_service ?cb (service_type_ident (header f))")
      case False
      with True Suc.prems(2) have "dispatch_loop n hb f (Suc i) handled c w = (r, c1, w1)" by simp
      from Suc.IH[OF Suc.prems(1) this] show ?thesis .
    next
      case m: True
      obtain r0 c0 v where h: "run_handler (hb (callback ?cb) f c) c ?w = (r0, c0, v)"
        by (cases "run_handler (hb (callback ?cb) f c) c ?w") auto
      from Suc.prems(1) have "registry_inv c ?w" by simp
      from registry_inv_run_handler[OF this h] have i0: "registry_inv c0 v" .
      show ?thesis
      proof (cases r0)
        case (Some e)
        with True m h Suc.prems(2) i0 show ?thesis by simp
      next
        case None
        with True m h Suc.prems(2) have "dispatch_loop n hb f (Suc i) True c0 v = (r, c1, w1)"
          by simp
        from Suc.IH[OF i0 this] show ?thesis .
      qed
    qed
  qed
qed

lemma registry_inv_handle_knxipframe:
  assumes "registry_inv c w" and "handle_knxipframe fuel hb c f w = (r, c1, w1)"
  shows "registry_inv c1 w1"
proof -
  obtain r0 c0 v where d: "dispatch_loop fuel hb f 0 False c w = (r0, c0, v)"
    by (cases "dispatch_loop fuel hb f 0 False c w") auto
  from registry_inv_dispatch_loop[OF assms(1) d] have "registry_inv c0 v" .
  moreover from assms(2) d have "c1 = c0"
    "w1 = v \<or> w1 = emit (LogDebugUnhandled (service_type_ident (header f))) v"
    by (auto simp: handle_knxipframe_def split: option.splits sum.splits if_splits)
  ultimately show ?thesis by auto
qed

lemma registry_inv_data_received_callback:
  assumes "registry_inv c w" and "data_received_callback fuel from_knx hb c raw w = (r, c1, w1)"
  shows "registry_inv c1 w1"
proof (cases "raw = []")
  case True
  with assms show ?thesis by (simp add: drc_empty)
next
  case False
  show ?thesis
  proof (cases "from_knx (xknx c) raw")
    case (Inl e)
    from drc_other_error[where from_knx = from_knx and c = c, OF False Inl, of fuel hb w] assms
    show ?thesis by auto
  next
    case (Inr f)
    obtain r0 c0 v where h: "handle_knxipframe fuel hb c f (emit (KnxDebugReceived f) w) = (r0, c0, v)"
      by (cases "handle_knxipframe fuel hb c f (emit (KnxDebugReceived f) w)") auto
    from assms(1) have "registry_inv c (emit (KnxDebugReceived f) w)" by simp
    from registry_inv_handle_knxipframe[OF this h] have "registry_inv c0 v" .
    with drc_decoded[where from_knx = from_knx and hb = hb and c = c, OF False Inr h] assms(2)
    show ?thesis by auto
  qed
qed

lemma registry_inv_api_step:
  assumes "registry_inv c w" and "api_step fuel from_knx hb (c, w) call = (c1, w1)"
  shows "registry_inv c1 w1"
proof (cases call)
  case (Register cb sts)
  with assms(2) have "register_callback c cb sts w = (fst (register_callback c cb sts w), c1, w1)"
    by (simp add: prod_eq_iff)
  from registry_inv_register[OF assms(1) this] show ?thesis .
next
  case (Unregister callb)
  with assms(2) registry_inv_unregister[OF assms(1), of callb] show ?thesis by auto
next
  case (Receive raw)
  with assms(2) have "data_received_callback fuel from_knx hb c raw w
      = (fst (data_received_callback fuel from_knx hb c raw w), c1, w1)"
    by (simp add: prod_eq_iff)
  from registry_inv_data_received_callback[OF assms(1) this] show ?thesis .
next
  case (Dispatch f)
  with assms(2) have "handle_knxipframe fuel hb c f w = (fst (handle_knxipframe fuel hb c f w), c1, w1)"
    by (simp add: prod_eq_iff)
  from registry_inv_handle_knxipframe[OF assms(1) this] show ?thesis .
qed

text \<open>
  A handle that is not in the list and was allocated earlier stays out of it, and no call
  goes through it, whatever the handlers register or unregister.
\<close>

lemma absent_emit [simp]: "absent i c (emit e w) = absent i c w"
  by (simp add: absent_def emit_def)

lemma absent_register:
  "absent i c w \<Longrightarrow> register_callback c cb sts w = (callb, c1, w1) \<Longrightarrow> absent i c1 w1"
  by (auto simp: absent_def register_callback_def Callback_init_def Let_def)

lemma absent_unregister:
  assumes "absent i c w"
  shows "absent i (snd (unregister_callback c callb)) w"
proof (cases "list_remove (callbacks c) callb")
  case (Inl e)
  with assms show ?thesis by (simp add: unregister_callback_def)
next
  case (Inr ys)
  from list_remove_subset[OF Inr] assms Inr show ?thesis
    by (auto simp: unregister_callback_def absent_def)
qed

lemma absent_run_handler:
  "absent i c w \<Longrightarrow> run_handler t c w = (r, c1, w1) \<Longrightarrow> absent i c1 w1"
proof (induction t arbitrary: c w)
  case Returns
  then show ?case by simp
next
  case (Raises e)
  then show ?case by simp
next
  case (Registers cb sts k)
  let ?callb = "fst (register_callback c cb sts w)"
  let ?c = "fst (snd (register_callback c cb sts w))"
  let ?w = "snd (snd (register_callback c cb sts w))"
  have "register_callback c cb sts w = (?callb, ?c, ?w)" by simp
  from absent_register[OF Registers.prems(1) this] have a: "absent i ?c ?w" .
  from Registers.prems(2) have "run_handler (k ?callb) ?c ?w = (r, c1, w1)"
    by (simp add: case_prod_beta)
  from Registers.IH[OF _ a this] show ?case by (simp add: range_eqI)
next
  case (Unregisters callb k)
  let ?r = "fst (unregister_callback c callb)"
  let ?c = "snd (unregister_callback c callb)"
  from absent_unregister[OF Unregisters.prems(1)] have a: "absent i ?c w" .
  from Unregisters.prems(2) have "run_handler (k ?r) ?c w = (r, c1, w1)"
    by (simp add: case_prod_beta)
  from Unregisters.IH[OF _ a this] show ?case by (simp add: range_eqI)
qed

lemma absent_dispatch_loop:
  "absent i c w \<Longrightarrow> dispatch_loop fuel hb f j handled c w = (r, c1, w1) \<Longrightarrow>
   absent i c1 w1 \<and>
   (\<exists>evs. events w1 = events w @ evs \<and> (\<forall>hd g. HandlerCall i hd g \<notin> set evs))"
proof (induction fuel arbitrary: j handled c w)
  case 0
  then show ?case by simp
next
  case (Suc n)
  let ?cb = "callbacks c ! j"
  let ?call = "HandlerCall (ident ?cb) (callback ?cb) f"
  show ?case
  proof (cases "j < length (callbacks c)")
    case False
    with Suc.prems show ?thesis by simp
  next
    case True
    show ?thesis
    proof (cases "has_service ?cb (service_type_ident (header f))")
      case False
      with True Suc.prems(2) have "dispatch_loop n hb f (Suc j) handled c w = (r, c1, w1)" by simp
      from Suc.IH[OF Suc.prems(1) this] show ?thesis .
    next
      case m: True
      from True Suc.prems(1) have ne: "ident ?cb \<noteq> i"
        by (auto simp: absent_def)
      obtain r0 c0 v where h: "run_handler (hb (callback ?cb) f c) c (emit ?call w) = (r0, c0, v)"
        by (cases "run_handler (hb (callback ?cb) f c) c (emit ?call w)") auto
      from Suc.prems(1) have "absent i c (emit ?call w)" by simp
      from absent_run_handler[OF this h] have a0: "absent i c0 v" .
      from run_handler_shape[OF h] have ev: "events v = events w @ [?call]"
        by (simp add: emit_def)
      show ?thesis
      proof (cases r0)
        case (Some e)
        with True m h Suc.prems(2) have "c1 = c0" "w1 = v" by simp_all
        with a0 ev ne show ?thesis by simp
      next
        case None
        with True m h Suc.prems(2) have "dispatch_loop n hb f (Suc j) True c0 v = (r, c1, w1)"
          by simp
        from Suc.IH[OF a0 this] obtain evs where
          a1: "absent i c1 w1" and e: "events w1 = events v @ evs"
          and n: "\<forall>hd g. HandlerCall i hd g \<notin> set evs"
          by blast
        have "events w1 = events w @ (?call # evs)" using e ev by simp
        moreover have "\<forall>hd g. HandlerCall i hd g \<notin> set (?call # evs)" using n ne by simp
        ultimately show ?thesis using a1 by blast
      qed
    qed
  qed
qed

lemma absent_handle_knxipframe:
  assumes "absent i c w" and "handle_knxipframe fuel hb c f w = (r, c1, w1)"
  shows "absent i c1 w1 \<and>
   (\<exists>evs. events w1 = events w @ evs \<and> (\<forall>hd g. HandlerCall i hd g \<notin> set evs))"
proof -
  obtain r0 c0 v where d: "dispatch_loop fuel hb f 0 False c w = (r0, c0, v)"
    by (cases "dispatch_loop fuel hb f 0 False c w") auto
  from absent_dispatch_loop[OF assms(1) d] obtain evs where
    a: "absent i c0 v" and e: "events v = events w @ evs"
    and n: "\<forall>hd g. HandlerCall i hd g \<notin> set evs"
    by blast
  from assms(2) d have c1: "c1 = c0"
    and "w1 = v \<or> w1 = emit (LogDebugUnhandled (service_type_ident (header f))) v"
    by (auto simp: handle_knxipframe_def split: option.splits sum.splits if_splits)
  then consider "w1 = v" | "w1 = emit (LogDebugUnhandled (service_type_ident (header f))) v"
    by blast
  then show ?thesis
  proof cases
    case 1
    with a e n c1 show ?thesis by blast
  next
    case 2
    then have "events w1 = events w @ (evs @ [LogDebugUnhandled (service_type_ident (header f))])"
      using e by (simp add: emit_def)
    moreover have "\<forall>hd g. HandlerCall i hd g
        \<notin> set (evs @ [LogDebugUnhandled (service_type_ident (header f))])"
      using n by simp
    moreover have "absent i c1 w1" using a c1 2 by simp
    ultimately show ?thesis by blast
  qed
qed

lemma absent_data_received_callback:
  assumes "absent i c w" and "data_received_callback fuel from_knx hb c raw w = (r, c1, w1)"
  shows "absent i c1 w1 \<and>
   (\<exists>evs. events w1 = events w @ evs \<and> (\<forall>hd g. HandlerCall i hd g \<notin> set evs))"
proof (cases "raw = []")
  case True
  with assms show ?thesis by (simp add: drc_empty)
next
  case False
  show ?thesis
  proof (cases "from_knx (xknx c) raw")
    case (Inl e)
    from drc_other_error[where from_knx = from_knx and c = c, OF False Inl, of fuel hb w] assms(2)
    have "c1 = c" "w1 = w \<or> (\<exists>m. w1 = emit (LogException (CouldNotParseKNXIP m)) w)" by auto
    with assms(1) show ?thesis by (auto simp: emit_def absent_def)
  next
    case (Inr f)
    let ?w = "emit (KnxDebugReceived f) w"
    obtain r0 c0 v where h: "handle_knxipframe fuel hb c f ?w = (r0, c0, v)"
      by (cases "handle_knxipframe fuel hb c f ?w") auto
    from assms(1) have "absent i c ?w" by simp
    from absent_handle_knxipframe[OF this h] obtain evs where
      a: "absent i c0 v" and e: "events v = events w @ KnxDebugReceived f # evs"
      and n: "\<forall>hd g. HandlerCall i hd g \<notin> set evs"
      by (auto simp: emit_def)
    from drc_decoded[where from_knx = from_knx and hb = hb and c = c, OF False Inr h] assms(2)
    have c1: "c1 = c0" and "w1 = v \<or> (\<exists>m. w1 = emit (LogException (CouldNotParseKNXIP m)) v)"
      by auto
    then obtain tl where tl: "events w1 = events v @ tl" "\<forall>hd g. HandlerCall i hd g \<notin> set tl"
      and nx: "next_id w1 = next_id v"
      by (auto simp: emit_def)
    have "events w1 = events w @ (KnxDebugReceived f # evs @ tl)" using tl(1) e by simp
    moreover have "\<forall>hd g. HandlerCall i hd g \<notin> set (KnxDebugReceived f # evs @ tl)"
      using n tl(2) by simp
    moreover have "absent i c1 w1" using a c1 nx by (simp add: absent_def)
    ultimately show ?thesis by blast
  qed
qed

lemma api_step_absent:
  assumes "absent i c w" and "api_step fuel from_knx hb (c, w) call = (c1, w1)"
  shows "absent i c1 w1 \<and>
         (\<exists>evs. events w1 = events w @ evs \<and> (\<forall>hd g. HandlerCall i hd g \<notin> set evs))"
proof (cases call)
  case (Register cb sts)
  with assms(2) have r: "register_callback c cb sts w = (fst (register_callback c cb sts w), c1, w1)"
    by (simp add: prod_eq_iff)
  from absent_register[OF assms(1) r] have "absent i c1 w1" .
  moreover from r have "events w1 = events w @ []"
    by (auto simp: register_callback_def Let_def)
  ultimately show ?thesis by (metis empty_iff list.set(1))
next
  case (Unregister callb)
  with assms(2) absent_unregister[OF assms(1), of callb] show ?thesis by auto
next
  case (Receive raw)
  with assms(2) have "data_received_callback fuel from_knx hb c raw w
      = (fst (data_received_callback fuel from_knx hb c raw w), c1, w1)"
    by (simp add: prod_eq_iff)
  from absent_data_received_callback[OF assms(1) this] show ?thesis .
next
  case (Dispatch f)
  with assms(2) have "handle_knxipframe fuel hb c f w = (fst (handle_knxipframe fuel hb c f w), c1, w1)"
    by (simp add: prod_eq_iff)
  from absent_handle_knxipframe[OF assms(1) this] show ?thesis .
qed

lemma api_run_absent:
  assumes "absent i c w"
  shows "\<exists>evs. events (snd (api_run fuel from_knx hb (c, w) cs)) = events w @ evs \<and>
               (\<forall>hd g. HandlerCall i hd g \<notin> set evs)"
  using assms
proof (induction cs arbitrary: c w)
  case Nil
  then show ?case by (simp add: api_run_def)
next
  case (Cons call cs)
  obtain c1 w1 where s: "api_step fuel from_knx hb (c, w) call = (c1, w1)"
    by (cases "api_step fuel from_knx hb (c, w) call") auto
  from api_step_absent[OF Cons.prems s] obtain evs where
    a: "absent i c1 w1"
    and e: "events w1 = events w @ evs" "\<forall>hd g. HandlerCall i hd g \<notin> set evs"
    by blast
  from Cons.IH[OF a] obtain evs1 where
    e1: "events (snd (api_run fuel from_knx hb (c1, w1) cs)) = events w1 @ evs1"
      "\<forall>hd g. HandlerCall i hd g \<notin> set evs1"
    by blast
  have r: "api_run fuel from_knx hb (c, w) (call # cs) = api_run fuel from_knx hb (c1, w1) cs"
    using s by (simp add: api_run_def)
  have "events (snd (api_run fuel from_knx hb (c, w) (call # cs))) = events w @ (evs @ evs1)"
    unfolding r using e(1) e1(1) by simp
  moreover have "\<forall>hd g. HandlerCall i hd g \<notin> set (evs @ evs1)"
    using e(2) e1(2) by simp
  ultimately show ?case by blast
qed



text \<open>
  Claim C8. Unregistering a handle that is in the list removes exactly the registration
  with that identity; registrations of the same handler function under other handles stay.
  Whatever the caller does next through \<^verbatim>\<open>register_callback\<close>, \<^verbatim>\<open>unregister_callback\<close>, the
  receive path and \<^verbatim>\<open>handle_knxipframe\<close>, and whatever the handlers called on the way
  register or unregister, no handler call is made through the removed handle.
\<close>

theorem unregistered_handle_is_never_called:
  assumes "registry_inv c w" and "h \<in> set (callbacks c)"
  shows "unregister_callback c h
           = (Inr (), c\<lparr>callbacks := filter (\<lambda>cb. ident cb \<noteq> ident h) (callbacks c)\<rparr>) \<and>
         (\<forall>cs hd g. HandlerCall (ident h) hd g
            \<notin> set (new_events w (snd (api_run fuel from_knx hb (snd (unregister_callback c h), w) cs))))"
proof -
  let ?c1 = "c\<lparr>callbacks := filter (\<lambda>cb. ident cb \<noteq> ident h) (callbacks c)\<rparr>"
  from assms have d: "distinct (map ident (callbacks c))" and lt: "ident h < next_id w"
    by (auto simp: registry_inv_def list_all_iff)
  from assms(2) have "ident h \<in> ident ` set (callbacks c)" by simp
  from list_remove_present[OF d this]
  have u: "unregister_callback c h = (Inr (), ?c1)"
    by (simp add: unregister_callback_def)
  have "ident h \<notin> ident ` set (callbacks ?c1)" by auto
  with lt have a: "absent (ident h) ?c1 w" by (simp add: absent_def)
  have "\<forall>cs hd g. HandlerCall (ident h) hd g
            \<notin> set (new_events w (snd (api_run fuel from_knx hb (?c1, w) cs)))"
  proof (intro allI)
    fix cs hd g
    from api_run_absent[OF a, of fuel from_knx hb cs] obtain evs where
      e: "events (snd (api_run fuel from_knx hb (?c1, w) cs)) = events w @ evs"
      and n: "\<forall>hd g. HandlerCall (ident h) hd g \<notin> set evs"
      by blast
    from new_events_append[OF e] n
    show "HandlerCall (ident h) hd g \<notin> set (new_events w (snd (api_run fuel from_knx hb (?c1, w) cs)))"
      by simp
  qed
  with u show ?thesis by simp
qed


theorem unregistered_handle_is_never_called_witness:
  "registry_inv reg_client w3 \<and> cb_0201 \<in> set (callbacks reg_client) \<and>
   unregister_callback reg_client cb_0201
     = (Inr (), reg_client\<lparr>callbacks := [cb_all, cb_0203]\<rparr>) \<and>
   handler_calls (new_events w3 (snd (api_run 5 from_header leaving
       (snd (unregister_callback reg_client cb_0201), w3)
       [Register 11 (Some [513]), Receive [6, 16, 2, 1, 0, 6]])))
     = [HandlerCall 0 10 frame_0201, HandlerCall 3 11 frame_0201] \<and>
   HandlerCall (ident cb_0201) 11 frame_0201
     \<notin> set (new_events w3 (snd (api_run 5 from_header leaving
       (snd (unregister_callback reg_client cb_0201), w3)
       [Register 11 (Some [513]), Receive [6, 16, 2, 1, 0, 6]])))"
proof -
  have i: "registry_inv reg_client w3"
    by (simp add: registry_inv_def reg_client_def w3_def cb_all_def cb_0201_def cb_0203_def)
  have m: "cb_0201 \<in> set (callbacks reg_client)"
    by (simp add: reg_client_def)
  note t = unregistered_handle_is_never_called[OF i m, of 5 from_header leaving]
  have u: "unregister_callback reg_client cb_0201
     = (Inr (), reg_client\<lparr>callbacks := [cb_all, cb_0203]\<rparr>)"
    using t by (simp add: reg_client_def cb_all_def cb_0201_def cb_0203_def)
  have n5: "(5::nat) = Suc (Suc (Suc (Suc (Suc 0))))" by simp
  have d: "from_header 0 [6, 16, 2, 1, 0, 6] = Inr frame_0201"
    by (simp add: from_header_def frame_0201_def)
  have r: "api_run 5 from_header leaving (reg_client\<lparr>callbacks := [cb_all, cb_0203]\<rparr>, w3)
       [Register 11 (Some [513]), Receive [6, 16, 2, 1, 0, 6]]
     = (reg_client\<lparr>callbacks := [cb_0203, \<lparr>ident = 3, callback = 11, service_types = [513]\<rparr>]\<rparr>,
        \<lparr>events = [KnxDebugReceived frame_0201, HandlerCall 0 10 frame_0201,
                   HandlerCall 3 11 frame_0201], next_id = 4\<rparr>)"
    unfolding n5
    by (simp add: api_run_def register_callback_def Callback_init_def Let_def
        data_received_callback_def handle_knxipframe_def has_service_def emit_def leaving_def d
        unregister_callback_def
        reg_client_def mcast_client_def w3_def cb_all_def cb_0203_def frame_0201_def)
  have c: "handler_calls (new_events w3 (snd (api_run 5 from_header leaving
       (snd (unregister_callback reg_client cb_0201), w3)
       [Register 11 (Some [513]), Receive [6, 16, 2, 1, 0, 6]])))
     = [HandlerCall 0 10 frame_0201, HandlerCall 3 11 frame_0201]"
  proof -
    have e3: "events w3 = []" by (simp add: w3_def)
    show ?thesis
      unfolding u by (simp add: r new_events_def handler_calls_def e3)
  qed
  from t have n: "HandlerCall (ident cb_0201) 11 frame_0201
     \<notin> set (new_events w3 (snd (api_run 5 from_header leaving
       (snd (unregister_callback reg_client cb_0201), w3)
       [Register 11 (Some [513]), Receive [6, 16, 2, 1, 0, 6]])))"
    by blast
  show ?thesis
    by (intro conjI) (rule i, rule m, rule u, rule c, rule n)
qed

section \<open>The multicast socket\<close>

lemma bind_exn_Inr_iff: "bind_exn m f = Inr y \<longleftrightarrow> (\<exists>x. m = Inr x \<and> f x = Inr y)"
  by (cases m) (simp_all add: bind_exn_def)

lemma sock_do_Inr_iff:
  "sock_do os call s = Inr s1 \<longleftrightarrow> os s call \<and> s1 = (sock_effect call s)\<lparr>calls := calls s @ [call]\<rparr>"
  by (auto simp: sock_do_def)

lemma create_multicast_sock_shape:
  assumes "create_multicast_sock platform os aton own_ip group_addr = Inr s"
  shows "\<exists>ifc grp host port.
           inet_aton aton own_ip = Inr ifc \<and> py_getitem group_addr 0 = Inr host \<and>
           inet_aton aton host = Inr grp \<and> py_getitem group_addr 1 = Inr port \<and>
           s = configured_sock platform ifc grp host port"
proof -
  consider (win) "platform = ''win32''"
    | (mac) "platform \<noteq> ''win32''" "platform = ''darwin''"
    | (other) "platform \<noteq> ''win32''" "platform \<noteq> ''darwin''"
    by blast
  then show ?thesis
  proof cases
    case win
    with assms show ?thesis
      unfolding create_multicast_sock_def bind_exn_Inr_iff sock_do_Inr_iff
      by (auto simp: bind_exn_Inr_iff sock_do_Inr_iff closed_sock_def configured_sock_def
          bind_calls_def)
  next
    case mac
    with assms show ?thesis
      unfolding create_multicast_sock_def bind_exn_Inr_iff sock_do_Inr_iff
      by (auto simp: bind_exn_Inr_iff sock_do_Inr_iff closed_sock_def configured_sock_def
          bind_calls_def)
  next
    case other
    with assms show ?thesis
      unfolding create_multicast_sock_def bind_exn_Inr_iff sock_do_Inr_iff
      by (auto simp: bind_exn_Inr_iff sock_do_Inr_iff closed_sock_def configured_sock_def
          bind_calls_def)
  qed
qed


lemma create_multicast_sock_succeeds:
  assumes "\<forall>s call. os s call"
    and "inet_aton aton own_ip = Inr ifc" and "py_getitem group_addr 0 = Inr host"
    and "inet_aton aton host = Inr grp" and "py_getitem group_addr 1 = Inr port"
  shows "create_multicast_sock platform os aton own_ip group_addr
           = Inr (configured_sock platform ifc grp host port)"
  using assms
  by (simp add: create_multicast_sock_def bind_exn_def sock_do_def closed_sock_def
      configured_sock_def bind_calls_def)

lemma connect_multicast_sock:
  assumes "multicast c" and "connect platform os aton loop c = (Inr (), c1)"
  shows "\<exists>s own_ip. py_getitem (local_addr c) 0 = Inr own_ip \<and>
           create_multicast_sock platform os aton own_ip (remote_addr c) = Inr s \<and>
           transport c1 = Some (Transport (SockEndpoint s))"
  using assms
  by (auto simp: connect_def create_datagram_endpoint_def bind_exn_def
      split: sum.splits option.splits)

text \<open>
  Claim C5. A socket returned by \<^verbatim>\<open>create_multicast_sock\<close> is an \<^verbatim>\<open>AF_INET\<close> datagram socket on
  which exactly these calls were made, in this order: \<^verbatim>\<open>SO_REUSEADDR = 1\<close>, non-blocking,
  \<^verbatim>\<open>IP_MULTICAST_IF\<close> with the own interface, \<^verbatim>\<open>IP_ADD_MEMBERSHIP\<close> with group and interface,
  \<^verbatim>\<open>IP_MULTICAST_TTL = 2\<close>, the bind step of the platform, \<^verbatim>\<open>IP_MULTICAST_LOOP = 0\<close>. After a
  multicast \<^verbatim>\<open>connect\<close> that returned, the transport runs over such a socket: TTL 2,
  loopback off, the group joined.
\<close>

theorem create_multicast_sock_configuration:
  "(create_multicast_sock platform os aton own_ip group_addr = Inr s \<longrightarrow>
      (\<exists>ifc grp host port.
         inet_aton aton own_ip = Inr ifc \<and> py_getitem group_addr 0 = Inr host \<and>
         inet_aton aton host = Inr grp \<and> py_getitem group_addr 1 = Inr port \<and>
         calls s =
           [Socket AF_INET SOCK_DGRAM,
            Setsockopt SOL_SOCKET SO_REUSEADDR (OptInt 1),
            Setblocking False,
            Setsockopt IPPROTO_IP IP_MULTICAST_IF (OptBytes ifc),
            Setsockopt IPPROTO_IP IP_ADD_MEMBERSHIP (OptBytes (grp @ ifc)),
            Setsockopt IPPROTO_IP IP_MULTICAST_TTL (OptInt 2)]
           @ bind_calls platform host port
           @ [Setsockopt IPPROTO_IP IP_MULTICAST_LOOP (OptInt 0)] \<and>
         family s = Some AF_INET \<and> kind s = Some SOCK_DGRAM \<and>
         so_reuseaddr s \<and> \<not> blocking s \<and>
         ip_multicast_if s = Some ifc \<and> ip_memberships s = [grp @ ifc] \<and>
         ip_multicast_ttl s = 2 \<and> \<not> ip_multicast_loop s \<and>
         so_reuseport s = (platform \<noteq> ''win32'' \<and> platform = ''darwin'') \<and>
         bound s = Some (if platform = ''win32'' \<or> platform = ''darwin''
                         then (PyStr '''', port) else (host, port))))
   \<and> (multicast c \<and> connect platform os aton loop c = (Inr (), c1) \<longrightarrow>
        (\<exists>t own_ip ifc grp host.
           py_getitem (local_addr c) 0 = Inr own_ip \<and> inet_aton aton own_ip = Inr ifc \<and>
           py_getitem (remote_addr c) 0 = Inr host \<and> inet_aton aton host = Inr grp \<and>
           create_multicast_sock platform os aton own_ip (remote_addr c) = Inr t \<and>
           transport c1 = Some (Transport (SockEndpoint t)) \<and>
           ip_multicast_ttl t = 2 \<and> \<not> ip_multicast_loop t \<and>
           ip_memberships t = [grp @ ifc]))"
  (is "(?A \<longrightarrow> ?B) \<and> (?C \<longrightarrow> ?D)")
proof -
  have 1: "?A \<longrightarrow> ?B"
  proof
    assume ?A
    from create_multicast_sock_shape[OF this] obtain ifc grp host port where
      a: "inet_aton aton own_ip = Inr ifc" "py_getitem group_addr 0 = Inr host"
         "inet_aton aton host = Inr grp" "py_getitem group_addr 1 = Inr port"
      and s: "s = configured_sock platform ifc grp host port"
      by blast
    show ?B
      apply (rule exI[of _ ifc], rule exI[of _ grp], rule exI[of _ host], rule exI[of _ port])
      using a by (simp add: s configured_sock_def)
  qed
  have 2: "?C \<longrightarrow> ?D"
  proof (intro impI, elim conjE)
    assume "multicast c" and "connect platform os aton loop c = (Inr (), c1)"
    from connect_multicast_sock[OF this] obtain t own_ip where
      b: "py_getitem (local_addr c) 0 = Inr own_ip"
         "create_multicast_sock platform os aton own_ip (remote_addr c) = Inr t"
         "transport c1 = Some (Transport (SockEndpoint t))"
      by blast
    from create_multicast_sock_shape[OF b(2)] obtain ifc grp host port where
      a: "inet_aton aton own_ip = Inr ifc" "py_getitem (remote_addr c) 0 = Inr host"
         "inet_aton aton host = Inr grp"
      and t: "t = configured_sock platform ifc grp host port"
      by blast
    have "ip_multicast_ttl t = 2 \<and> \<not> ip_multicast_loop t \<and> ip_memberships t = [grp @ ifc]"
      by (simp add: t configured_sock_def)
    with a b show ?D
      by blast
  qed
  show ?thesis
    by (intro conjI) (rule 1, rule 2)
qed


theorem create_multicast_sock_configuration_witness:
  "create_multicast_sock ''linux'' os_accepts aton4 (PyStr ''0.0.0.0'') knx_group
     = Inr (configured_sock ''linux'' [0, 0, 0, 0] [224, 0, 23, 12]
              (PyStr ''224.0.23.12'') (PyInt 3671)) \<and>
   calls (configured_sock ''linux'' [0, 0, 0, 0] [224, 0, 23, 12]
            (PyStr ''224.0.23.12'') (PyInt 3671))
     = [Socket AF_INET SOCK_DGRAM,
        Setsockopt SOL_SOCKET SO_REUSEADDR (OptInt 1),
        Setblocking False,
        Setsockopt IPPROTO_IP IP_MULTICAST_IF (OptBytes [0, 0, 0, 0]),
        Setsockopt IPPROTO_IP IP_ADD_MEMBERSHIP (OptBytes [224, 0, 23, 12, 0, 0, 0, 0]),
        Setsockopt IPPROTO_IP IP_MULTICAST_TTL (OptInt 2),
        Bind (PyStr ''224.0.23.12'') (PyInt 3671),
        Setsockopt IPPROTO_IP IP_MULTICAST_LOOP (OptInt 0)] \<and>
   multicast mcast_client \<and>
   connect ''darwin'' os_accepts aton4 loop_accepts mcast_client
     = (Inr (), mcast_client\<lparr>transport := Some (Transport (SockEndpoint
          (configured_sock ''darwin'' [0, 0, 0, 0] [224, 0, 23, 12]
             (PyStr ''224.0.23.12'') (PyInt 3671))))\<rparr>) \<and>
   ip_multicast_ttl (configured_sock ''darwin'' [0, 0, 0, 0] [224, 0, 23, 12]
                       (PyStr ''224.0.23.12'') (PyInt 3671)) = 2 \<and>
   \<not> ip_multicast_loop (configured_sock ''darwin'' [0, 0, 0, 0] [224, 0, 23, 12]
                          (PyStr ''224.0.23.12'') (PyInt 3671)) \<and>
   ip_memberships (configured_sock ''darwin'' [0, 0, 0, 0] [224, 0, 23, 12]
                     (PyStr ''224.0.23.12'') (PyInt 3671))
     = [ [224, 0, 23, 12, 0, 0, 0, 0] ]"
proof -
  let ?lin = "configured_sock ''linux'' [0, 0, 0, 0] [224, 0, 23, 12]
                (PyStr ''224.0.23.12'') (PyInt 3671)"
  let ?mac = "configured_sock ''darwin'' [0, 0, 0, 0] [224, 0, 23, 12]
                (PyStr ''224.0.23.12'') (PyInt 3671)"
  have os: "\<forall>s call. os_accepts s call" by (simp add: os_accepts_def)
  have a: "inet_aton aton4 (PyStr ''0.0.0.0'') = Inr [0, 0, 0, 0]"
    "py_getitem knx_group 0 = Inr (PyStr ''224.0.23.12'')"
    "inet_aton aton4 (PyStr ''224.0.23.12'') = Inr [224, 0, 23, 12]"
    "py_getitem knx_group 1 = Inr (PyInt 3671)"
    by (simp_all add: aton4_def knx_group_def)
  have e1: "create_multicast_sock ''linux'' os_accepts aton4 (PyStr ''0.0.0.0'') knx_group = Inr ?lin"
    by (rule create_multicast_sock_succeeds[OF os a])
  have e2: "create_multicast_sock ''darwin'' os_accepts aton4 (PyStr ''0.0.0.0'') knx_group = Inr ?mac"
    by (rule create_multicast_sock_succeeds[OF os a])
  have m: "multicast mcast_client" "remote_addr mcast_client = knx_group"
    "py_getitem (local_addr mcast_client) 0 = Inr (PyStr ''0.0.0.0'')"
    by (simp_all add: mcast_client_def local_any_def)
  have k: "connect ''darwin'' os_accepts aton4 loop_accepts mcast_client
     = (Inr (), mcast_client\<lparr>transport := Some (Transport (SockEndpoint ?mac))\<rparr>)"
    by (simp add: connect_def m e2 bind_exn_def create_datagram_endpoint_def loop_accepts_def)
  note t1 = create_multicast_sock_configuration[where platform = "''linux''" and os = os_accepts
      and aton = aton4 and own_ip = "PyStr ''0.0.0.0''" and group_addr = knx_group and s = ?lin
      and c = mcast_client and loop = loop_accepts
      and ?c1.0 = "mcast_client\<lparr>transport := Some (Transport (SockEndpoint ?mac))\<rparr>"]
  note t2 = create_multicast_sock_configuration[where platform = "''darwin''" and os = os_accepts
      and aton = aton4 and own_ip = "PyStr ''0.0.0.0''" and group_addr = knx_group and s = ?mac
      and c = mcast_client and loop = loop_accepts
      and ?c1.0 = "mcast_client\<lparr>transport := Some (Transport (SockEndpoint ?mac))\<rparr>"]
  from t1 e1 a have c: "calls ?lin
     = [Socket AF_INET SOCK_DGRAM,
        Setsockopt SOL_SOCKET SO_REUSEADDR (OptInt 1),
        Setblocking False,
        Setsockopt IPPROTO_IP IP_MULTICAST_IF (OptBytes [0, 0, 0, 0]),
        Setsockopt IPPROTO_IP IP_ADD_MEMBERSHIP (OptBytes [224, 0, 23, 12, 0, 0, 0, 0]),
        Setsockopt IPPROTO_IP IP_MULTICAST_TTL (OptInt 2),
        Bind (PyStr ''224.0.23.12'') (PyInt 3671),
        Setsockopt IPPROTO_IP IP_MULTICAST_LOOP (OptInt 0)]"
    by (auto simp: bind_calls_def)
  from t2 m(1) k e2 a m(2,3) have o: "ip_multicast_ttl ?mac = 2" "\<not> ip_multicast_loop ?mac"
    "ip_memberships ?mac = [ [224, 0, 23, 12, 0, 0, 0, 0] ]"
    by auto
  show ?thesis
    by (intro conjI) (rule e1, rule c, rule m(1), rule k, rule o(1), rule o(2), rule o(3))
qed


end
